theory Spec2Isabelle
  imports Complex_Main "HOL-Library.Word"
begin

unbundle bit_operations_syntax

section \<open>Machine numbers\<close>

text \<open>
  The hit counts of a score are \<open>s32\<close>; they are multiplied by 150 and 300 before they
  are converted to floating point, so their arithmetic is modelled with 32-bit
  wrap-around (\<open>32 word\<close>, read as two's complement by \<open>sint\<close>). The mod bitmask
  \<open>EMods\<close> is an unsigned 32-bit flag set.

  Score ids, user ids and the checkpoints are \<open>s64\<close>. They are modelled as \<open>int\<close>;
  the one sum on them, \<open>begin + userIdStep\<close>, is written with its 64-bit wrap-around
  (\<open>s64_wrap\<close>).

  The numbers the processor reads from the database and compares (difficulty
  attributes, stored and computed pp) are modelled by \<open>real\<close> (\<open>f32\<close>): they are
  numbers, and rounding is not represented.
\<close>

type_synonym s32 = "32 word"
type_synonym s64 = int
type_synonym f32 = real
type_synonym EMods = "32 word"


definition in_s64 :: "int \<Rightarrow> bool" where
  "in_s64 i \<longleftrightarrow> - (2 ^ 63) \<le> i \<and> i < 2 ^ 63"

definition s64_wrap :: "int \<Rightarrow> s64" where
  "s64_wrap i = signed_take_bit 63 i"

subsection \<open>Floating-point values of the Taiko formulas\<close>

text \<open>
  The Taiko formulas divide by a 32-bit product that can be 0 and raise numbers that
  can be negative to powers that are not integers, so their \<open>f32\<close> values are
  modelled with the values that are not numbers: a \<open>float32\<close> is a real number, one
  of the two infinities or NaN. The operations follow IEEE 754 and the C++ library on
  these values: a quotient by zero is an infinity, or NaN for 0 / 0; NaN goes through
  every arithmetic operation and compares false with everything; \<open>std::min(a, b)\<close>
  is \<open>b < a ? b : a\<close> and \<open>std::max(a, b)\<close> is \<open>a < b ? b : a\<close>.

  Not represented: the rounding of a finite result, its overflow or underflow when it
  is too large or too small for the format, and the sign of zero (zero is +0, which is
  the zero an integer converts to).
\<close>

datatype float32 = Fin real | PosInf | NegInf | NaN

definition f32_of_s32 :: "s32 \<Rightarrow> float32" where
  "f32_of_s32 w = Fin (real_of_int (sint w))"

fun fless :: "float32 \<Rightarrow> float32 \<Rightarrow> bool" where
  "fless (Fin x) (Fin y) = (x < y)"
| "fless (Fin x) PosInf = True"
| "fless NegInf (Fin y) = True"
| "fless NegInf PosInf = True"
| "fless x y = False"

definition fle :: "float32 \<Rightarrow> float32 \<Rightarrow> bool" where
  "fle x y \<longleftrightarrow> fless x y \<or> (x = y \<and> x \<noteq> NaN)"

fun fneg :: "float32 \<Rightarrow> float32" where
  "fneg (Fin x) = Fin (- x)"
| "fneg PosInf = NegInf"
| "fneg NegInf = PosInf"
| "fneg NaN = NaN"

fun fadd :: "float32 \<Rightarrow> float32 \<Rightarrow> float32" where
  "fadd (Fin x) (Fin y) = Fin (x + y)"
| "fadd NaN y = NaN"
| "fadd x NaN = NaN"
| "fadd PosInf NegInf = NaN"
| "fadd NegInf PosInf = NaN"
| "fadd PosInf y = PosInf"
| "fadd NegInf y = NegInf"
| "fadd (Fin x) y = y"

definition fsub :: "float32 \<Rightarrow> float32 \<Rightarrow> float32" where
  "fsub x y = fadd x (fneg y)"

fun fmul :: "float32 \<Rightarrow> float32 \<Rightarrow> float32" where
  "fmul (Fin x) (Fin y) = Fin (x * y)"
| "fmul NaN y = NaN"
| "fmul x NaN = NaN"
| "fmul (Fin x) y = (if x = 0 then NaN else if 0 < x then y else fneg y)"
| "fmul x (Fin y) = (if y = 0 then NaN else if 0 < y then x else fneg x)"
| "fmul PosInf y = y"
| "fmul NegInf y = fneg y"

fun fdiv :: "float32 \<Rightarrow> float32 \<Rightarrow> float32" where
  "fdiv (Fin x) (Fin y) =
     (if y = 0 then (if x = 0 then NaN else if 0 < x then PosInf else NegInf) else Fin (x / y))"
| "fdiv NaN y = NaN"
| "fdiv x NaN = NaN"
| "fdiv (Fin x) y = Fin 0"
| "fdiv x (Fin y) = (if y < 0 then fneg x else x)"
| "fdiv x y = NaN"

definition std_min :: "float32 \<Rightarrow> float32 \<Rightarrow> float32" where
  "std_min a b = (if fless b a then b else a)"

definition std_max :: "float32 \<Rightarrow> float32 \<Rightarrow> float32" where
  "std_max a b = (if fless a b then b else a)"

text \<open>
  \<open>std::pow\<close> with an exponent that is a number and not an integer, as are the
  floating-point exponents of the Taiko formulas (2.25, 1.5, 1.1, 0.3 and 1 / 1.1):
  the power of a negative number is NaN, that of an infinity is +infinity for a
  positive exponent and 0 for a negative one. On the numbers that are not negative it
  is \<open>powr\<close>.
\<close>

fun std_pow :: "float32 \<Rightarrow> real \<Rightarrow> float32" where
  "std_pow NaN y = NaN"
| "std_pow (Fin x) y =
     (if x < 0 then NaN else if x = 0 \<and> y < 0 then PosInf else Fin (x powr y))"
| "std_pow PosInf y = (if 0 < y then PosInf else Fin 0)"
| "std_pow NegInf y = (if 0 < y then PosInf else Fin 0)"

text \<open>\<open>std::pow\<close> with an integer exponent (\<open>pow(x, 12)\<close>, \<open>pow(x, _numMiss)\<close>).\<close>

fun std_pow_int :: "float32 \<Rightarrow> int \<Rightarrow> float32" where
  "std_pow_int x n =
     (if n = 0 then Fin 1
      else case x of
             NaN \<Rightarrow> NaN
           | Fin b \<Rightarrow> if b = 0 \<and> n < 0 then PosInf else Fin (b powi n)
           | PosInf \<Rightarrow> if 0 < n then PosInf else Fin 0
           | NegInf \<Rightarrow> if n < 0 then Fin 0 else if even n then PosInf else NegInf)"

section \<open>Mods and beatmap attributes\<close>

text \<open>
  The headers of the library are not among the sources. What the code takes from them
  and the model needs is a parameter of the model: the masks of the mods the code names
  (the enumeration \<open>EMods\<close>), and what \<open>Clamp\<close> returns for NaN.
\<close>

record headers =
  Easy :: EMods
  Hidden :: EMods
  Flashlight :: EMods
  Relax :: EMods
  Relax2 :: EMods
  Autoplay :: EMods
  Clamp_of_NaN :: float32

text \<open>
  Modelled from the spec: \<open>Clamp\<close> (declared in pp/Common.h); the spec writes
  \<open>clamp(x, 0, 1)\<close>. A value below the lower bound gives the lower bound, a value
  above the upper bound the upper bound, also for the infinities. NaN is neither
  below nor above a bound, and what becomes of it depends on how the header writes the
  comparisons: that result is the parameter \<open>Clamp_of_NaN\<close>.
\<close>

definition Clamp :: "headers \<Rightarrow> float32 \<Rightarrow> float32 \<Rightarrow> float32 \<Rightarrow> float32" where
  "Clamp H x lo hi =
     (case x of
        NaN \<Rightarrow> Clamp_of_NaN H
      | _ \<Rightarrow> if fless x lo then lo else if fless hi x then hi else x)"

datatype EDifficultyAttribute = Strain | HitWindow300

text \<open>
  \<open>Beatmap::DifficultyAttribute(mods, attribute)\<close> is a lookup in the beatmap; the
  class is not among the sources, and a beatmap is modelled as that lookup. The
  attributes are the numbers of the table \<open>osu_beatmap_difficulty_attribs\<close>.
\<close>

type_synonym Beatmap = "EMods \<Rightarrow> EDifficultyAttribute \<Rightarrow> f32"

section \<open>TaikoScore\<close>

record TaikoScore =
  m_scoreId :: s64
  m_userId :: s64
  m_beatmapId :: s32
  m_score :: s32
  m_maxCombo :: s32
  m_num300 :: s32
  m_num100 :: s32
  m_num50 :: s32
  m_numMiss :: s32
  m_numGeki :: s32
  m_numKatu :: s32
  m_mods :: EMods
  m_difficultyValue :: float32
  m_accuracyValue :: float32
  m_totalValue :: float32

definition TotalHits :: "TaikoScore \<Rightarrow> s32" where
  "TotalHits s = m_num50 s + m_num100 s + m_num300 s + m_numMiss s"

definition TotalSuccessfulHits :: "TaikoScore \<Rightarrow> s32" where
  "TotalSuccessfulHits s = m_num50 s + m_num100 s + m_num300 s"

text \<open>
  The quotient is a floating-point division of two converted \<open>s32\<close> values. Its
  divisor \<open>TotalHits() * 300\<close> is an \<open>s32\<close> product and can wrap to 0 although
  \<open>TotalHits()\<close> is not 0: the quotient is then an infinity, or NaN when the
  numerator is 0 too.
\<close>

definition Accuracy :: "headers \<Rightarrow> TaikoScore \<Rightarrow> float32" where
  "Accuracy H s =
     (if TotalHits s = 0 then Fin 0
      else Clamp H (fdiv (f32_of_s32 (m_num100 s * 150 + m_num300 s * 300))
                         (f32_of_s32 (TotalHits s * 300))) (Fin 0) (Fin 1))"

definition computeDifficultyValue :: "headers \<Rightarrow> Beatmap \<Rightarrow> TaikoScore \<Rightarrow> TaikoScore" where
  "computeDifficultyValue H beatmap s =
     (let d0 = fdiv (std_pow (fsub (fmul (Fin 5)
                                      (std_max (Fin 1)
                                         (fdiv (Fin (beatmap (m_mods s) Strain)) (Fin 0.115))))
                                   (Fin 4)) 2.25)
                    (Fin 1150);
          lengthBonus = fadd (Fin 1)
                          (fmul (Fin 0.1)
                             (std_min (Fin 1) (fdiv (f32_of_s32 (TotalHits s)) (Fin 1500))));
          d1 = fmul d0 lengthBonus;
          d2 = fmul d1 (std_pow_int (Fin 0.986) (sint (m_numMiss s)));
          d3 = (if 0 < (m_mods s AND Easy H) then fmul d2 (Fin 0.980) else d2);
          d4 = (if 0 < (m_mods s AND Hidden H) then fmul d3 (Fin 1.025) else d3);
          d5 = (if 0 < (m_mods s AND Flashlight H) then fmul d4 (fmul (Fin 1.05) lengthBonus)
                else d4)
      in s\<lparr>m_difficultyValue := fmul d5 (std_pow (Accuracy H s) 1.5)\<rparr>)"

definition computeAccuracyValue :: "headers \<Rightarrow> Beatmap \<Rightarrow> TaikoScore \<Rightarrow> TaikoScore" where
  "computeAccuracyValue H beatmap s =
     (let hitWindow300 = beatmap (m_mods s) HitWindow300
      in if hitWindow300 \<le> 0 then s\<lparr>m_accuracyValue := Fin 0\<rparr>
         else
           (let a0 = fmul (fmul (std_pow (fdiv (Fin 140) (Fin hitWindow300)) 1.1)
                                (std_pow_int (Accuracy H s) 12))
                          (Fin 27);
                lengthBonus = std_min (Fin 1.15)
                                (std_pow (fdiv (f32_of_s32 (TotalHits s)) (Fin 1500)) 0.3);
                a1 = fmul a0 lengthBonus
            in if m_mods s AND (Hidden H OR Flashlight H) = (Hidden H OR Flashlight H)
               then s\<lparr>m_accuracyValue := fmul a1 (fmul (Fin 1.10) lengthBonus)\<rparr>
               else s\<lparr>m_accuracyValue := a1\<rparr>))"

definition computeTotalValue :: "headers \<Rightarrow> TaikoScore \<Rightarrow> TaikoScore" where
  "computeTotalValue H s =
     (if 0 < (m_mods s AND Relax H) \<or> 0 < (m_mods s AND Relax2 H) \<or> 0 < (m_mods s AND Autoplay H)
      then s\<lparr>m_totalValue := Fin 0\<rparr>
      else
        (let m0 = Fin 1.12;
             m1 = (if 0 < (m_mods s AND Hidden H) then fmul m0 (Fin 1.075) else m0);
             multiplier = (if 0 < (m_mods s AND Easy H) then fmul m1 (Fin 0.975) else m1)
         in s\<lparr>m_totalValue :=
               fmul (std_pow (fadd (std_pow (m_difficultyValue s) 1.1)
                                   (std_pow (m_accuracyValue s) 1.1))
                             (1 / 1.1))
                    multiplier\<rparr>))"

text \<open>
  The constructor. Its initialiser list names the base class only, which takes the
  ids, the counts and the mods (here with the prefix \<open>m_\<close>). The members
  \<open>_difficultyValue\<close>, \<open>_accuracyValue\<close> and \<open>_totalValue\<close> are not initialised
  (OsuScore.h declares them as \<open>f32 _totalValue;\<close>): when the body starts they hold
  whatever the storage of the object held. These contents are the argument \<open>U\<close>;
  the three computations then run in order and assign the members.
\<close>

record unassigned =
  u_difficultyValue :: float32
  u_accuracyValue :: float32
  u_totalValue :: float32

definition new_TaikoScore ::
  "headers \<Rightarrow> unassigned \<Rightarrow> s64 \<Rightarrow> s64 \<Rightarrow> s32 \<Rightarrow> s32 \<Rightarrow> s32 \<Rightarrow> s32 \<Rightarrow> s32 \<Rightarrow> s32 \<Rightarrow> s32 \<Rightarrow> s32
     \<Rightarrow> s32 \<Rightarrow> EMods \<Rightarrow> Beatmap \<Rightarrow> TaikoScore" where
  "new_TaikoScore H U scoreId userId beatmapId score maxCombo num300 num100 num50 numMiss
       numGeki numKatu mods beatmap =
     computeTotalValue H
       (computeAccuracyValue H beatmap
          (computeDifficultyValue H beatmap
             \<lparr>m_scoreId = scoreId, m_userId = userId, m_beatmapId = beatmapId,
              m_score = score, m_maxCombo = maxCombo,
              m_num300 = num300, m_num100 = num100, m_num50 = num50, m_numMiss = numMiss,
              m_numGeki = numGeki, m_numKatu = numKatu, m_mods = mods,
              m_difficultyValue = u_difficultyValue U, m_accuracyValue = u_accuracyValue U,
              m_totalValue = u_totalValue U\<rparr>))"

definition TotalValue :: "TaikoScore \<Rightarrow> float32" where
  "TotalValue s = m_totalValue s"


subsection \<open>The formulas as the specification words them\<close>

text \<open>
  The specification states the Taiko formulas over mathematical numbers. The
  definitions below follow its wording; the theorems compare them with the code above.
  \<open>has_mod\<close> is "the mod is in mods", \<open>mods_subset\<close> is the specification's
  \<open>(Hidden | Flashlight) \<subset> mods\<close>, \<open>clamp\<close> its \<open>clamp(x, lo, hi)\<close>.
\<close>

definition has_mod :: "EMods \<Rightarrow> EMods \<Rightarrow> bool" where
  "has_mod md m \<longleftrightarrow> md AND m \<noteq> 0"

definition mods_subset :: "EMods \<Rightarrow> EMods \<Rightarrow> bool" where
  "mods_subset m md \<longleftrightarrow> md AND m = m"

definition disqualified :: "headers \<Rightarrow> EMods \<Rightarrow> bool" where
  "disqualified H md \<longleftrightarrow>
     has_mod md (Relax H) \<or> has_mod md (Relax2 H) \<or> has_mod md (Autoplay H)"



definition spec_difficulty ::
  "headers \<Rightarrow> EMods \<Rightarrow> real \<Rightarrow> real \<Rightarrow> real \<Rightarrow> real \<Rightarrow> real" where
  "spec_difficulty H md strain total_hits nMiss accuracy =
     (let d = (max 1 (strain / 0.115) * 5 - 4) powr 2.25 / 1150;
          length_bonus = 1 + 0.1 * min 1 (total_hits / 1500);
          d = d * length_bonus;
          d = d * 0.986 powr nMiss;
          d = (if has_mod md (Easy H) then d * 0.980 else d);
          d = (if has_mod md (Hidden H) then d * 1.025 else d);
          d = (if has_mod md (Flashlight H) then d * (1.05 * length_bonus) else d)
      in d * accuracy powr 1.5)"

definition spec_acc_value :: "headers \<Rightarrow> EMods \<Rightarrow> real \<Rightarrow> real \<Rightarrow> real \<Rightarrow> real" where
  "spec_acc_value H md hw total_hits accuracy =
     (if hw \<le> 0 then 0
      else
        (let acc_value = (140 / hw) powr 1.1 * accuracy ^ 12 * 27;
             len_b = min 1.15 ((total_hits / 1500) powr 0.3);
             acc_value = acc_value * len_b
         in if mods_subset (Hidden H OR Flashlight H) md then acc_value * (1.10 * len_b)
            else acc_value))"

definition spec_mult :: "headers \<Rightarrow> EMods \<Rightarrow> real" where
  "spec_mult H md =
     (let mult = 1.12;
          mult = (if has_mod md (Hidden H) then mult * 1.075 else mult)
      in if has_mod md (Easy H) then mult * 0.975 else mult)"

definition spec_total :: "headers \<Rightarrow> EMods \<Rightarrow> real \<Rightarrow> real \<Rightarrow> real" where
  "spec_total H md d acc_value = (d powr 1.1 + acc_value powr 1.1) powr (1 / 1.1) * spec_mult H md"

subsection \<open>Concrete scores\<close>

text \<open>
  The mod bits of the osu! bitmask, with a \<open>Clamp\<close> that lets NaN through; contents
  of the storage a score is constructed in; scores with given hit counts and no mods.
\<close>

definition osu_headers :: headers where
  "osu_headers = \<lparr>Easy = 2, Hidden = 8, Flashlight = 1024, Relax = 128, Relax2 = 8192,
     Autoplay = 2048, Clamp_of_NaN = NaN\<rparr>"

definition leftover :: unassigned where
  "leftover = \<lparr>u_difficultyValue = Fin 3, u_accuracyValue = NaN, u_totalValue = Fin 7\<rparr>"

definition hits_score :: "s32 \<Rightarrow> s32 \<Rightarrow> s32 \<Rightarrow> s32 \<Rightarrow> TaikoScore" where
  "hits_score num300 num100 num50 numMiss =
     \<lparr>m_scoreId = 1, m_userId = 1, m_beatmapId = 1, m_score = 0, m_maxCombo = 0,
      m_num300 = num300, m_num100 = num100, m_num50 = num50, m_numMiss = numMiss,
      m_numGeki = 0, m_numKatu = 0, m_mods = 0,
      m_difficultyValue = u_difficultyValue leftover, m_accuracyValue = u_accuracyValue leftover,
      m_totalValue = u_totalValue leftover\<rparr>"

definition plain_score :: "s32 \<Rightarrow> s32 \<Rightarrow> s32 \<Rightarrow> s32 \<Rightarrow> Beatmap \<Rightarrow> TaikoScore" where
  "plain_score num300 num100 num50 numMiss beatmap =
     new_TaikoScore osu_headers leftover 1 1 1 0 0 num300 num100 num50 numMiss 0 0 0 beatmap"

definition clean_map :: Beatmap where
  "clean_map = (\<lambda>mods attribute. case attribute of Strain \<Rightarrow> 3 | HitWindow300 \<Rightarrow> 35)"

definition no_window_map :: Beatmap where
  "no_window_map = (\<lambda>mods attribute. case attribute of Strain \<Rightarrow> 3 | HitWindow300 \<Rightarrow> 0)"

section \<open>The processor\<close>

text \<open>
  \<open>EGamemode\<close> has the four game modes; \<open>NumGamemodes\<close>, the size of the
  tables \<open>s_gamemodeSuffixes\<close>, \<open>s_gamemodeNames\<close> and \<open>s_gamemodeTags\<close>,
  stands for a value that is none of them. On such a value \<open>NewScore\<close> throws a
  \<open>CProcessorException\<close>; \<open>_beatmaps.at\<close> throws \<open>std::out_of_range\<close> on a
  missing key.
\<close>

datatype EGamemode = Standard | Taiko | CatchTheBeat | Mania | NumGamemodes

datatype exn = UnknownGamemode | OutOfRange

text \<open>
  The score classes of the processor (\<open>CStandardScore\<close>, \<open>CTaikoScore\<close>,
  \<open>CCatchTheBeatScore\<close>, \<open>CManiaScore\<close>) and \<open>CUser\<close> are not among the
  sources. A score is modelled by what the processor reads from it: its id, its beatmap id,
  \<open>TotalValue()\<close> and \<open>Accuracy()\<close>.
\<close>

record SPPRecord =
  Value :: f32
  Acc :: f32

record CScore =
  ScoreId :: s64
  BeatmapId :: s32
  ScoreTotalValue :: f32
  ScoreAccuracy :: f32

text \<open>
  Modelled from the spec: \<open>CScore::PPRecord\<close> (not among the sources), the record
  \<open>(value, accuracy)\<close> of a score that the user aggregate takes.
\<close>

definition PPRecord :: "CScore \<Rightarrow> SPPRecord" where
  "PPRecord sc = \<lparr>Value = ScoreTotalValue sc, Acc = ScoreAccuracy sc\<rparr>"

text \<open>
  A beatmap of the cache \<open>_beatmaps\<close>, with the setters \<open>QueryBeatmapDifficulty\<close>
  calls. The type \<open>'a\<close> is the difficulty attribute enumeration.
\<close>

record 'a CBeatmap =
  Id :: s32
  RankedStatus :: s32
  ScoreVersion :: s32
  NumHitCircles :: s32
  Attributes :: "EMods \<times> 'a \<rightharpoonup> f32"

definition new_CBeatmap :: "s32 \<Rightarrow> 'a CBeatmap" where
  "new_CBeatmap i = \<lparr>Id = i, RankedStatus = 0, ScoreVersion = 0, NumHitCircles = 0,
     Attributes = Map.empty\<rparr>"

text \<open>
  Result rows. \<open>difficulty_row\<close> is a row of \<open>osu_beatmaps\<close> joined with
  \<open>osu_beatmap_difficulty_attribs\<close> (with the \<open>mode\<close> column the query filters on);
  \<open>score_row\<close> is a row of \<open>osu_scores_high\<close>. A nullable column is an
  \<open>option\<close>.
\<close>

record difficulty_row =
  d_beatmap_id :: s32
  d_countNormal :: "s32 option"
  d_mods :: EMods
  d_attrib_id :: s32
  d_value :: f32
  d_approved :: s32
  d_score_version :: s32
  d_mode :: EGamemode

record score_row =
  r_score_id :: s64
  r_user_id :: s64
  r_beatmap_id :: s32
  r_score :: s32
  r_maxcombo :: s32
  r_count300 :: s32
  r_count100 :: s32
  r_count50 :: s32
  r_countmiss :: s32
  r_countgeki :: s32
  r_countkatu :: s32
  r_enabled_mods :: EMods
  r_pp :: "f32 option"

text \<open>
  The statements the processor issues. \<open>UpdateScorePP\<close> is the \<open>UPDATE\<close> of a
  score row, \<open>InsertPerformanceChange\<close> the insert into
  \<open>osu_user_performance_change\<close>, \<open>UpdateUserStats\<close> the user update and
  \<open>InsertCount\<close> the upsert into \<open>osu_counts\<close> that \<open>StoreCount\<close> sends.
  A connection or an update batch is modelled by the list of statements given to it.
\<close>

datatype statement =
    UpdateScorePP s64 f32
  | InsertPerformanceChange s64 EGamemode s32 real
  | UpdateUserStats s64 f32 f32
  | InsertCount string s64

definition StoreCount :: "statement list \<Rightarrow> string \<Rightarrow> s64 \<Rightarrow> statement list" where
  "StoreCount db key v = db @ [InsertCount key v]"

text \<open>
  The members of \<open>CProcessor\<close> that the modelled functions read, the replica's
  tables, and the parts that are not among the sources: the ranked-status window
  (\<open>s_minRankedStatus\<close>, \<open>s_maxRankedStatus\<close>), the per-mode score constructors
  (\<open>score_model\<close>, giving total value and accuracy) and
  \<open>CUser::ComputePPRecord\<close>. \<open>user_stats_pp\<close> is the result of the query for
  the user's stored pp.
\<close>

record 'a CProcessor =
  gamemode :: EGamemode
  LastScoreIdKey :: string
  blacklistedBeatmapIds :: "s32 set"
  s_minRankedStatus :: s32
  s_maxRankedStatus :: s32
  difficultyAttributes :: "s32 \<Rightarrow> 'a"
  beatmap_difficulty_table :: "difficulty_row list"
  scores_high_table :: "score_row list"
  user_stats_pp :: "s64 \<Rightarrow> f32 option list"
  score_model :: "EGamemode \<Rightarrow> 'a CBeatmap \<Rightarrow> score_row \<Rightarrow> f32 \<times> f32"
  ComputePPRecord :: "SPPRecord list \<Rightarrow> SPPRecord"

type_synonym 'a beatmaps = "s32 \<rightharpoonup> 'a CBeatmap"

text \<open>
  \<open>QueryBeatmapDifficulty(startId, endId)\<close>; \<open>endId = 0\<close> asks for the single
  beatmap \<open>startId\<close>. The body of its row loop is \<open>set_difficulty_row\<close>. The
  read/write lock is not modelled: the model is one thread.
\<close>

definition set_difficulty_row :: "'a CProcessor \<Rightarrow> 'a beatmaps \<Rightarrow> difficulty_row \<Rightarrow> 'a beatmaps" where
  "set_difficulty_row P bms r =
     (let i = d_beatmap_id r;
          beatmap = (case bms i of None \<Rightarrow> new_CBeatmap i | Some b \<Rightarrow> b)
      in bms(i \<mapsto> beatmap\<lparr>
           RankedStatus := d_approved r,
           ScoreVersion := d_score_version r,
           NumHitCircles := (case d_countNormal r of None \<Rightarrow> 0 | Some n \<Rightarrow> n),
           Attributes := (Attributes beatmap)
              ((d_mods r, difficultyAttributes P (d_attrib_id r)) \<mapsto> d_value r)\<rparr>))"

definition QueryBeatmapDifficulty ::
  "'a CProcessor \<Rightarrow> s32 \<Rightarrow> s32 \<Rightarrow> 'a beatmaps \<Rightarrow> bool \<times> 'a beatmaps" where
  "QueryBeatmapDifficulty P startId endId bms =
     (let res = filter (\<lambda>r. d_mode r = gamemode P \<and> 1 \<le>s d_approved r \<and>
                   (if endId = 0 then d_beatmap_id r = startId
                    else startId \<le>s d_beatmap_id r \<and> d_beatmap_id r <s endId))
                 (beatmap_difficulty_table P);
          success = (res \<noteq> []);
          bms' = foldl (set_difficulty_row P) bms res
      in if endId \<noteq> 0 then (success, bms')
         else if bms' startId = None then (False, bms')
         else (success, bms'))"

definition NewScore :: "'a CProcessor \<Rightarrow> 'a beatmaps \<Rightarrow> score_row \<Rightarrow> exn + CScore" where
  "NewScore P bms row =
     (case gamemode P of
        NumGamemodes \<Rightarrow> Inl UnknownGamemode
      | m \<Rightarrow>
         (case bms (r_beatmap_id row) of
            None \<Rightarrow> Inl OutOfRange
          | Some beatmap \<Rightarrow>
              Inr \<lparr>ScoreId = r_score_id row, BeatmapId = r_beatmap_id row,
                   ScoreTotalValue = fst (score_model P m beatmap row),
                   ScoreAccuracy = snd (score_model P m beatmap row)\<rparr>))"

text \<open>
  \<open>ProcessSingleUser\<close>. The row loop works on the beatmap cache, the user's list of
  score records and \<open>scoresThatNeedDBUpdate\<close>; \<open>process_row\<close> is one iteration,
  each \<open>continue\<close> returning the state reached so far.
\<close>

record 'a loop_state =
  beatmaps :: "'a beatmaps"
  user_scores :: "SPPRecord list"
  scoresThatNeedDBUpdate :: "CScore list"

definition process_row ::
  "'a CProcessor \<Rightarrow> s64 \<Rightarrow> 'a loop_state \<Rightarrow> score_row \<Rightarrow> exn + 'a loop_state" where
  "process_row P selectedScoreId st row =
     (let scoreId = r_score_id row; beatmapId = r_beatmap_id row
      in if beatmapId \<in> blacklistedBeatmapIds P then Inr st
         else
           (let bms = (if beatmaps st beatmapId = None
                       then snd (QueryBeatmapDifficulty P beatmapId 0 (beatmaps st))
                       else beatmaps st);
                st1 = st\<lparr>beatmaps := bms\<rparr>
            in case bms beatmapId of
                 None \<Rightarrow> Inr st1
               | Some beatmap \<Rightarrow>
                   if RankedStatus beatmap <s s_minRankedStatus P
                      \<or> s_maxRankedStatus P <s RankedStatus beatmap
                   then Inr st1
                   else
                     (case NewScore P bms row of
                        Inl e \<Rightarrow> Inl e
                      | Inr pScore \<Rightarrow>
                          (let st2 = st1\<lparr>user_scores := user_scores st1 @ [PPRecord pScore]\<rparr>
                           in if r_pp row = None \<or> selectedScoreId = 0 \<or> selectedScoreId = scoreId
                              then
                                (if (case r_pp row of None \<Rightarrow> True
                                     | Some pp \<Rightarrow> 0.001 < \<bar>pp - ScoreTotalValue pScore\<bar>)
                                 then Inr (st2\<lparr>scoresThatNeedDBUpdate :=
                                           scoresThatNeedDBUpdate st2 @ [pScore]\<rparr>)
                                 else Inr st2)
                              else Inr st2))))"

fun process_rows ::
  "'a CProcessor \<Rightarrow> s64 \<Rightarrow> 'a loop_state \<Rightarrow> score_row list \<Rightarrow> exn + 'a loop_state" where
  "process_rows P selectedScoreId st [] = Inr st"
| "process_rows P selectedScoreId st (row # rows) =
     (case process_row P selectedScoreId st row of
        Inl e \<Rightarrow> Inl e
      | Inr st' \<Rightarrow> process_rows P selectedScoreId st' rows)"

text \<open>
  Modelled from the spec: \<open>CScore::AppendToUpdateBatch\<close> (the class is not among the
  sources) appends an \<open>UPDATE\<close> on the score row, carrying the new pp.
\<close>

definition AppendToUpdateBatch :: "CScore \<Rightarrow> statement" where
  "AppendToUpdateBatch sc = UpdateScorePP (ScoreId sc) (ScoreTotalValue sc)"

definition s_notableEventRatingThreshold :: f32 where
  "s_notableEventRatingThreshold = 1 / 21.5"

definition s_notableEventRatingDifferenceMinimum :: f32 where
  "s_notableEventRatingDifferenceMinimum = 5"

text \<open>The loop over the rows holding the user's previously stored pp.\<close>

fun notable_rows :: "EGamemode \<Rightarrow> s64 \<Rightarrow> CScore \<Rightarrow> f32 \<Rightarrow> f32 option list \<Rightarrow> statement list" where
  "notable_rows m userId pScore userValue [] = []"
| "notable_rows m userId pScore userValue (None # res) = notable_rows m userId pScore userValue res"
| "notable_rows m userId pScore userValue (Some prev # res) =
     (let ratingChange = userValue - prev
      in if ratingChange < s_notableEventRatingDifferenceMinimum
         then notable_rows m userId pScore userValue res
         else InsertPerformanceChange userId m (BeatmapId pScore) ratingChange
                # notable_rows m userId pScore userValue res)"

text \<open>
  The result: the user, the cache, and the statements given to \<open>db\<close>,
  \<open>newUsers\<close> and \<open>newScores\<close>.
\<close>

record 'a outcome =
  o_user_id :: s64
  o_user_scores :: "SPPRecord list"
  o_user_record :: SPPRecord
  o_beatmaps :: "'a beatmaps"
  o_db :: "statement list"
  o_newUsers :: "statement list"
  o_newScores :: "statement list"

definition ProcessSingleUser ::
  "'a CProcessor \<Rightarrow> 'a beatmaps \<Rightarrow> s64 \<Rightarrow> statement list \<Rightarrow> statement list \<Rightarrow> statement list
     \<Rightarrow> s64 \<Rightarrow> exn + 'a outcome" where
  "ProcessSingleUser P bms selectedScoreId db newUsers newScores userId =
     (let res = filter (\<lambda>r. r_user_id r = userId) (scores_high_table P)
      in case process_rows P selectedScoreId
                \<lparr>beatmaps = bms, user_scores = [], scoresThatNeedDBUpdate = []\<rparr> res of
           Inl e \<Rightarrow> Inl e
         | Inr st \<Rightarrow>
             (let needs = scoresThatNeedDBUpdate st;
                  newScores' = newScores @ map AppendToUpdateBatch needs;
                  userPPRecord = ComputePPRecord P (user_scores st);
                  db' = (if 0 < selectedScoreId \<and> needs \<noteq> [] \<and>
                            Value userPPRecord * s_notableEventRatingThreshold
                              < ScoreTotalValue (hd needs)
                         then db @ notable_rows (gamemode P) userId (hd needs)
                                     (Value userPPRecord) (user_stats_pp P userId)
                         else db);
                  newUsers' = newUsers @ [UpdateUserStats userId (Value userPPRecord) (Acc userPPRecord)]
              in Inr \<lparr>o_user_id = userId, o_user_scores = user_scores st,
                      o_user_record = userPPRecord, o_beatmaps = beatmaps st,
                      o_db = db', o_newUsers = newUsers', o_newScores = newScores'\<rparr>))"

subsection \<open>Predicates on rows\<close>

text \<open>
  \<open>after_lazy_load\<close> is the cache after the lazy load attempt for a beatmap id.
  A row is \<open>skipped\<close> when its beatmap is blacklisted, still absent after the attempt,
  or has a ranked status outside the window. \<open>needs_update\<close> is the condition under
  which the score's pp row needs a database update.
\<close>

definition after_lazy_load :: "'a CProcessor \<Rightarrow> 'a beatmaps \<Rightarrow> s32 \<Rightarrow> 'a beatmaps" where
  "after_lazy_load P bms beatmapId =
     (if bms beatmapId = None then snd (QueryBeatmapDifficulty P beatmapId 0 bms) else bms)"

definition outside_window :: "'a CProcessor \<Rightarrow> 'a CBeatmap \<Rightarrow> bool" where
  "outside_window P beatmap \<longleftrightarrow>
     RankedStatus beatmap <s s_minRankedStatus P \<or> s_maxRankedStatus P <s RankedStatus beatmap"

definition skipped :: "'a CProcessor \<Rightarrow> 'a beatmaps \<Rightarrow> score_row \<Rightarrow> bool" where
  "skipped P bms row \<longleftrightarrow>
     r_beatmap_id row \<in> blacklistedBeatmapIds P
     \<or> (case after_lazy_load P bms (r_beatmap_id row) (r_beatmap_id row) of
           None \<Rightarrow> True
         | Some beatmap \<Rightarrow> outside_window P beatmap)"

definition needs_update :: "s64 \<Rightarrow> score_row \<Rightarrow> f32 \<Rightarrow> bool" where
  "needs_update selected_score_id row new_pp \<longleftrightarrow>
     (r_pp row = None \<or> selected_score_id = 0 \<or> selected_score_id = r_score_id row)
     \<and> (case r_pp row of None \<Rightarrow> True | Some stored \<Rightarrow> 0.001 < \<bar>stored - new_pp\<bar>)"

section \<open>The score poller\<close>

text \<open>
  \<open>PollAndProcessNewScores\<close>. The members it changes are \<open>_currentScoreId\<close>,
  \<open>_numScoresProcessedSinceLastStore\<close> and the beatmap cache; \<open>pDB\<close> is the list of
  statements given to the connection \<open>_pDB\<close>, \<open>p_newUsers\<close> and
  \<open>p_newScores\<close> are the two update batches \<open>newUsers\<close> and \<open>newScores\<close>.
  The poll timer and the metrics are not modelled.
\<close>

definition s_lastScoreIdUpdateStep :: s64 where
  "s_lastScoreIdUpdateStep = 100"

record 'a poller =
  currentScoreId :: s64
  numScoresProcessedSinceLastStore :: s64
  p_beatmaps :: "'a beatmaps"
  pDB :: "statement list"
  p_newUsers :: "statement list"
  p_newScores :: "statement list"

definition poll_row :: "'a CProcessor \<Rightarrow> 'a poller \<Rightarrow> score_row \<Rightarrow> exn + 'a poller" where
  "poll_row P st row =
     (if r_pp row \<noteq> None then Inr st
      else
        (let ScoreId = r_score_id row; UserId = r_user_id row;
             cur = max (currentScoreId st) ScoreId
         in case ProcessSingleUser P (p_beatmaps st) ScoreId (pDB st) (p_newUsers st)
                   (p_newScores st) UserId of
              Inl e \<Rightarrow> Inl e
            | Inr out \<Rightarrow>
                (let n = numScoresProcessedSinceLastStore st + 1;
                     st1 = st\<lparr>currentScoreId := cur, p_beatmaps := o_beatmaps out,
                              pDB := o_db out, p_newUsers := o_newUsers out,
                              p_newScores := o_newScores out\<rparr>
                 in if s_lastScoreIdUpdateStep < n
                    then Inr (st1\<lparr>pDB := StoreCount (o_db out) (LastScoreIdKey P) cur,
                                   numScoresProcessedSinceLastStore := 0\<rparr>)
                    else Inr (st1\<lparr>numScoresProcessedSinceLastStore := n\<rparr>))))"

fun poll_rows :: "'a CProcessor \<Rightarrow> 'a poller \<Rightarrow> score_row list \<Rightarrow> exn + 'a poller" where
  "poll_rows P st [] = Inr st"
| "poll_rows P st (row # res) =
     (case poll_row P st row of Inl e \<Rightarrow> Inl e | Inr st' \<Rightarrow> poll_rows P st' res)"

definition PollAndProcessNewScores :: "'a CProcessor \<Rightarrow> 'a poller \<Rightarrow> exn + 'a poller" where
  "PollAndProcessNewScores P st =
     poll_rows P (st\<lparr>p_newUsers := [], p_newScores := []\<rparr>)
       (sort_key r_score_id
          (filter (\<lambda>r. currentScoreId st < r_score_id r) (scores_high_table P)))"

section \<open>The counter store\<close>

text \<open>
  \<open>osu_counts\<close> as a list of rows \<open>(name, count)\<close>. \<open>RetrieveCount\<close> returns the
  first count that is not null, or -1.
\<close>

type_synonym counts_table = "(string \<times> s64 option) list"

fun RetrieveCount :: "counts_table \<Rightarrow> string \<Rightarrow> s64" where
  "RetrieveCount [] key = - 1"
| "RetrieveCount ((name, count) # res) key =
     (if name = key
      then (case count of Some v \<Rightarrow> v | None \<Rightarrow> RetrieveCount res key)
      else RetrieveCount res key)"



section \<open>Full re-processing\<close>

text \<open>
  \<open>ProcessAllUsers\<close> is modelled by what its driver thread does, in order: a call of
  \<open>StoreCount\<close> (\<open>Store\<close>), a task given to the thread pool for a user id and a
  connection index (\<open>EnqueueTask\<close>), and one round of the wait loop (\<open>Poll\<close>, with
  the sum of the pending queries and the number of tasks in the system it read).
\<close>

datatype event =
    Store string s64
  | EnqueueTask s64 nat
  | Poll nat nat

datatype exit = Finished | NothingToReprocess | ShutDown | MaxUserIdNotFound | DivisionByZero | NeverIdle

text \<open>
  Modelled from the spec: the thread pool and the worker connections
  (\<open>CThreadPool\<close>, \<open>CDatabaseConnection\<close>; not among the sources), by the two
  numbers the wait loop reads: \<open>GetNumTasksInSystem()\<close>, the tasks given to the pool
  and not finished, and the sum of \<open>NumPendingQueries()\<close> over the worker
  connections, the queries sent to them and not executed.

  The pool's threads and the connections run while the driver runs. What they do
  between two actions of the driver is a \<open>progress\<close>: so many tasks finish, the tasks
  in the system send so many queries to their connections, the connections execute so
  many queries. The worker connections are used by the tasks only, so queries are
  sent only while a task is in the system.
\<close>

record workers =
  tasksInSystem :: nat
  pendingQueries :: nat

record progress =
  tasks_finished :: nat
  queries_sent :: nat
  queries_executed :: nat

definition advance :: "progress \<Rightarrow> workers \<Rightarrow> workers" where
  "advance g w =
     (let sent = (if tasksInSystem w = 0 then 0 else queries_sent g);
          pending = pendingQueries w + sent
      in \<lparr>tasksInSystem = tasksInSystem w - tasks_finished g,
          pendingQueries = pending - queries_executed g\<rparr>)"

text \<open>
  The environment gives the replica's user ids, the result of the \<open>MAX(user_id)\<close>
  query (\<open>None\<close>: no row), the value of the shutdown flag when it is read after the
  n-th task, the progress of the workers after the n-th task was given to the pool,
  and, for the step starting at \<open>begin\<close>, their progress during each 10 ms sleep of
  the wait loop. After the last sleep of that list the workers make no progress any
  more: a wait loop that is then still busy never ends (\<open>NeverIdle\<close>: the function
  does not return).
\<close>

record driver_env =
  LastUserIdKey :: string
  user_stats_ids :: "s64 list"
  max_user_id :: "s64 option"
  shallShutdown :: "nat \<Rightarrow> bool"
  after_enqueue :: "nat \<Rightarrow> progress"
  during_sleep :: "s64 \<Rightarrow> progress list"

definition userIdStep :: s64 where
  "userIdStep = 10000"

fun dispatch ::
  "driver_env \<Rightarrow> nat \<Rightarrow> s64 list \<Rightarrow> nat \<Rightarrow> nat \<Rightarrow> workers
     \<Rightarrow> exit option \<times> nat \<times> nat \<times> workers \<times> event list" where
  "dispatch E numThreads [] currentConnection n w = (None, currentConnection, n, w, [])"
| "dispatch E numThreads (userId # res) currentConnection n w =
     (let w1 = advance (after_enqueue E (Suc n)) (w\<lparr>tasksInSystem := tasksInSystem w + 1\<rparr>)
      in if numThreads = 0
         then (Some DivisionByZero, currentConnection, Suc n, w1,
               [EnqueueTask userId currentConnection])
         else if shallShutdown E (Suc n)
         then (Some ShutDown, (currentConnection + 1) mod numThreads, Suc n, w1,
               [EnqueueTask userId currentConnection])
         else
           (case dispatch E numThreads res ((currentConnection + 1) mod numThreads) (Suc n) w1 of
              (x, c, n', w', evs) \<Rightarrow> (x, c, n', w', EnqueueTask userId currentConnection # evs)))"

text \<open>
  The wait loop. A round reads the pending queries, sleeps, and then tests the number
  of tasks in the system, read after the sleep, and the pending queries, read before
  it.
\<close>

fun await_idle :: "progress list \<Rightarrow> workers \<Rightarrow> (event list \<times> workers) option" where
  "await_idle [] w =
     (if 0 < tasksInSystem w \<or> 0 < pendingQueries w then None
      else Some ([Poll (pendingQueries w) (tasksInSystem w)], w))"
| "await_idle (g # sleeps) w =
     (let numPendingQueries = pendingQueries w;
          w1 = advance g w
      in if 0 < tasksInSystem w1 \<or> 0 < numPendingQueries
         then map_option (\<lambda>(evs, w'). (Poll numPendingQueries (tasksInSystem w1) # evs, w'))
                (await_idle sleeps w1)
         else Some ([Poll numPendingQueries (tasksInSystem w1)], w1))"

definition process_step ::
  "driver_env \<Rightarrow> nat \<Rightarrow> s64 \<Rightarrow> nat \<Rightarrow> nat \<Rightarrow> workers
     \<Rightarrow> exit option \<times> nat \<times> nat \<times> workers \<times> event list" where
  "process_step E numThreads begin currentConnection n w =
     (let end = s64_wrap (begin + userIdStep);
          res = filter (\<lambda>u. begin \<le> u \<and> u \<le> end) (user_stats_ids E)
      in case dispatch E numThreads res currentConnection n w of
           (Some x, c, n', w', evs) \<Rightarrow> (Some x, c, n', w', evs)
         | (None, c, n', w', evs) \<Rightarrow>
             (case await_idle (during_sleep E begin) w' of
                None \<Rightarrow> (Some NeverIdle, c, n', w', evs)
              | Some (polls, w'') \<Rightarrow>
                  (None, c, n', w'', evs @ polls
                     @ [Store (LastUserIdKey E) (s64_wrap (begin + userIdStep))])))"

text \<open>
  The loop \<open>while (begin <= maxUserId)\<close>. With the wrap-around of \<open>begin\<close> it need
  not end, so its result is an \<open>option\<close>: \<open>None\<close> is a run that does not return.
\<close>

partial_function (option) process_steps ::
  "driver_env \<Rightarrow> nat \<Rightarrow> s64 \<Rightarrow> s64 \<Rightarrow> nat \<Rightarrow> nat \<Rightarrow> workers \<Rightarrow> (exit \<times> event list) option" where
  "process_steps E numThreads maxUserId begin currentConnection n w =
     (if begin \<le> maxUserId
      then
        (case process_step E numThreads begin currentConnection n w of
           (Some x, c, n', w', evs) \<Rightarrow> Some (x, evs)
         | (None, c, n', w', evs) \<Rightarrow>
             Option.bind
               (process_steps E numThreads maxUserId (s64_wrap (begin + userIdStep)) c n' w')
               (\<lambda>(x, evs'). Some (x, evs @ evs')))
      else Some (Finished, []))"

text \<open>The pool and the connections are created by the function: no task, no query.\<close>

definition idle :: workers where
  "idle = \<lparr>tasksInSystem = 0, pendingQueries = 0\<rparr>"

definition ProcessAllUsers ::
  "driver_env \<Rightarrow> counts_table \<Rightarrow> bool \<Rightarrow> nat \<Rightarrow> (exit \<times> event list) option" where
  "ProcessAllUsers E counts reProcess numThreads =
     (let begin = (if reProcess then 0 else RetrieveCount counts (LastUserIdKey E));
          evs0 = (if reProcess then [Store (LastUserIdKey E) 0] else [])
      in if begin = - 1 then Some (NothingToReprocess, evs0)
         else
           (case max_user_id E of
              None \<Rightarrow> Some (MaxUserIdNotFound, evs0)
            | Some maxUserId \<Rightarrow>
                Option.bind (process_steps E numThreads maxUserId begin 0 0 idle)
                  (\<lambda>(x, evs). Some (x, evs0 @ evs))))"


fun is_enqueue :: "event \<Rightarrow> bool" where
  "is_enqueue (EnqueueTask userId currentConnection) = True"
| "is_enqueue e = False"

fun is_busy_poll :: "event \<Rightarrow> bool" where
  "is_busy_poll (Poll numPendingQueries numTasksInSystem) =
     (0 < numTasksInSystem \<or> 0 < numPendingQueries)"
| "is_busy_poll e = False"

text \<open>The user id of a task event.\<close>

fun task_user :: "event \<Rightarrow> s64 option" where
  "task_user (EnqueueTask userId currentConnection) = Some userId"
| "task_user e = None"


section \<open>Concrete inputs\<close>


definition boundary_env :: driver_env where
  "boundary_env = \<lparr>LastUserIdKey = ''last_user_id'', user_stats_ids = [10000],
     max_user_id = Some 10000, shallShutdown = (\<lambda>n. False),
     after_enqueue = (\<lambda>n. \<lparr>tasks_finished = 0, queries_sent = 2, queries_executed = 0\<rparr>),
     during_sleep = (\<lambda>b. [\<lparr>tasks_finished = 0, queries_sent = 0, queries_executed = 2\<rparr>,
                           \<lparr>tasks_finished = 1, queries_sent = 0, queries_executed = 0\<rparr>])\<rparr>"




definition new_score_row :: "s64 \<Rightarrow> score_row" where
  "new_score_row i = \<lparr>r_score_id = i, r_user_id = 7, r_beatmap_id = 1, r_score = 0,
     r_maxcombo = 0, r_count300 = 0, r_count100 = 0, r_count50 = 0, r_countmiss = 0,
     r_countgeki = 0, r_countkatu = 0, r_enabled_mods = 0, r_pp = None\<rparr>"

definition poll_processor :: "nat \<Rightarrow> unit CProcessor" where
  "poll_processor k = \<lparr>gamemode = Taiko, LastScoreIdKey = ''last_score_id'',
     blacklistedBeatmapIds = {1},
     s_minRankedStatus = 1, s_maxRankedStatus = 2, difficultyAttributes = (\<lambda>i. ()),
     beatmap_difficulty_table = [], scores_high_table = map (\<lambda>i. new_score_row (int i + 1)) [0..<k],
     user_stats_pp = (\<lambda>u. []), score_model = (\<lambda>m b r. (0, 0)),
     ComputePPRecord = (\<lambda>rs. \<lparr>Value = 0, Acc = 0\<rparr>)\<rparr>"

definition fresh_poller :: "unit poller" where
  "fresh_poller = \<lparr>currentScoreId = 0, numScoresProcessedSinceLastStore = 0,
     p_beatmaps = Map.empty, pDB = [], p_newUsers = [], p_newScores = []\<rparr>"

definition stores :: "statement list \<Rightarrow> statement list" where
  "stores db = filter (\<lambda>s. case s of InsertCount k v \<Rightarrow> True | _ \<Rightarrow> False) db"

definition summary :: "exn + 'a poller \<Rightarrow> (s64 \<times> statement list) option" where
  "summary r = (case r of Inl e \<Rightarrow> None
     | Inr st \<Rightarrow> Some (numScoresProcessedSinceLastStore st, stores (pDB st)))"

text \<open>
  A processor for Taiko with beatmap 1 blacklisted, beatmap 7 ranked, beatmap 5 loved and
  outside the window [Ranked, Approved], and a user 9 with stored pp 3000 whose new score
  55 is worth 700 pp and brings the user to 3800 pp.
\<close>

definition demo_row :: "s64 \<Rightarrow> s32 \<Rightarrow> f32 option \<Rightarrow> score_row" where
  "demo_row scoreId beatmapId pp = \<lparr>r_score_id = scoreId, r_user_id = 9, r_beatmap_id = beatmapId,
     r_score = 0, r_maxcombo = 0, r_count300 = 1400, r_count100 = 90, r_count50 = 0,
     r_countmiss = 10, r_countgeki = 0, r_countkatu = 0, r_enabled_mods = 0, r_pp = pp\<rparr>"

definition demo_difficulty :: "s32 \<Rightarrow> s32 \<Rightarrow> difficulty_row" where
  "demo_difficulty beatmapId approved = \<lparr>d_beatmap_id = beatmapId, d_countNormal = None,
     d_mods = 0, d_attrib_id = 1, d_value = 3, d_approved = approved, d_score_version = 1,
     d_mode = Taiko\<rparr>"

definition demo_processor :: "unit CProcessor" where
  "demo_processor = \<lparr>gamemode = Taiko, LastScoreIdKey = ''last_score_id'',
     blacklistedBeatmapIds = {1}, s_minRankedStatus = 1, s_maxRankedStatus = 2,
     difficultyAttributes = (\<lambda>i. ()),
     beatmap_difficulty_table = [demo_difficulty 7 1, demo_difficulty 5 4],
     scores_high_table = [demo_row 54 1 None, demo_row 55 7 None],
     user_stats_pp = (\<lambda>u. [Some 3000]),
     score_model = (\<lambda>m b r. (700, 1)),
     ComputePPRecord = (\<lambda>rs. \<lparr>Value = 3800, Acc = 1\<rparr>)\<rparr>"

definition demo_state :: "unit loop_state" where
  "demo_state = \<lparr>beatmaps = Map.empty, user_scores = [], scoresThatNeedDBUpdate = []\<rparr>"

definition demo_score :: CScore where
  "demo_score = \<lparr>ScoreId = 55, BeatmapId = 7, ScoreTotalValue = 700, ScoreAccuracy = 1\<rparr>"

definition demo_beatmap_7 :: "unit CBeatmap" where
  "demo_beatmap_7 = \<lparr>Id = 7, RankedStatus = 1, ScoreVersion = 1, NumHitCircles = 0,
     Attributes = [(0, ()) \<mapsto> 3]\<rparr>"

definition demo_final :: "unit loop_state" where
  "demo_final = \<lparr>beatmaps = [7 \<mapsto> demo_beatmap_7],
     user_scores = [\<lparr>Value = 700, Acc = 1\<rparr>], scoresThatNeedDBUpdate = [demo_score]\<rparr>"

definition demo_outcome :: "unit outcome" where
  "demo_outcome = \<lparr>o_user_id = 9, o_user_scores = [\<lparr>Value = 700, Acc = 1\<rparr>],
     o_user_record = \<lparr>Value = 3800, Acc = 1\<rparr>, o_beatmaps = [7 \<mapsto> demo_beatmap_7],
     o_db = [InsertPerformanceChange 9 Taiko 7 800],
     o_newUsers = [UpdateUserStats 9 3800 1], o_newScores = [UpdateScorePP 55 700]\<rparr>"


section \<open>Taiko: total value, accuracy\<close>

lemma has_mod_code: "has_mod md m \<longleftrightarrow> 0 < (md AND m)"
  by (simp add: has_mod_def word_neq_0_conv)

lemma fields_computeDifficultyValue [simp]:
  "TotalHits (computeDifficultyValue H b s) = TotalHits s"
  "Accuracy H' (computeDifficultyValue H b s) = Accuracy H' s"
  "m_mods (computeDifficultyValue H b s) = m_mods s"
  "m_numMiss (computeDifficultyValue H b s) = m_numMiss s"
  by (simp_all add: computeDifficultyValue_def Let_def Accuracy_def TotalHits_def)

lemma fields_computeAccuracyValue [simp]:
  "m_difficultyValue (computeAccuracyValue H b s) = m_difficultyValue s"
  "m_mods (computeAccuracyValue H b s) = m_mods s"
  by (simp_all add: computeAccuracyValue_def Let_def)

lemma fields_computeTotalValue [simp]:
  "m_accuracyValue (computeTotalValue H s) = m_accuracyValue s"
  "m_difficultyValue (computeTotalValue H s) = m_difficultyValue s"
  by (simp_all add: computeTotalValue_def Let_def)

text \<open>
  C1: a Taiko score whose mods contain Relax, Relax2 or Autoplay has total value 0,
  whatever its hit counts and the beatmap's attributes are, and whatever its members
  held before the constructor assigned them.
\<close>

theorem disqualifying_mods_total_value_zero:
  "disqualified H mods \<Longrightarrow>
   TotalValue (new_TaikoScore H U scoreId userId beatmapId score maxCombo num300 num100 num50
                 numMiss numGeki numKatu mods beatmap) = Fin 0"
  by (auto simp add: disqualified_def has_mod_code TotalValue_def new_TaikoScore_def
      computeTotalValue_def)

theorem disqualifying_mods_total_value_zero_witness:
  "disqualified osu_headers 128 \<and> u_totalValue leftover = Fin 7
   \<and> TotalValue (new_TaikoScore osu_headers leftover 1 1 1 0 0 1400 90 0 10 0 0 128 clean_map)
       = Fin 0"
proof -
  have h: "disqualified osu_headers 128"
    by (simp add: disqualified_def has_mod_def osu_headers_def)
  show ?thesis
    using h disqualifying_mods_total_value_zero
        [OF h, of leftover 1 1 1 0 0 1400 90 0 10 0 0 clean_map]
    by (simp add: leftover_def)
qed

subsection \<open>Accuracy\<close>












lemma fle_Fin [simp]: "fle (Fin x) (Fin y) \<longleftrightarrow> x \<le> y"
  by (auto simp add: fle_def)

lemma std_min_Fin [simp]: "std_min (Fin a) (Fin b) = Fin (min a b)"
  by (simp add: std_min_def min_def)

lemma std_max_Fin [simp]: "std_max (Fin a) (Fin b) = Fin (max a b)"
  by (simp add: std_max_def max_def)







text \<open>
  Where the divisor wraps to 0 under a numerator that is not 0, the quotient is an
  infinity: with 2 hits of 100 and 1073741822 of 50 the accuracy is 1.
\<close>

lemma Accuracy_of_infinite_quotient:
  "Accuracy H (hits_score 0 2 1073741822 0) = Fin 1"
  by (simp add: Accuracy_def TotalHits_def hits_score_def f32_of_s32_def Clamp_def)

subsection \<open>Total value\<close>


lemma strain_base: "\<not> 5 * max 1 y - 4 < (0 :: real)"
  by (simp add: max_def)

lemma std_pow_int_986: "std_pow_int (Fin 0.986) n = Fin (0.986 powr real_of_int n)"
  by (simp add: powr_real_of_int')

lemma std_pow_int_12: "std_pow_int (Fin a) 12 = Fin (a ^ 12)"
  by simp

text \<open>
  The three computations on a score whose accuracy is a number that is not negative:
  each gives the specification's formula, taken at the score's \<open>Accuracy()\<close> and
  \<open>TotalHits()\<close>, as long as no power has a negative base.
\<close>

lemma difficultyValue_spec:
  assumes "Accuracy H s = Fin a" and "0 \<le> a" and "sint (TotalHits s) = T"
  shows "m_difficultyValue (computeDifficultyValue H b s) =
     Fin (spec_difficulty H (m_mods s) (b (m_mods s) Strain) (real_of_int T)
            (real_of_int (sint (m_numMiss s))) a)"
proof -
  have t: "f32_of_s32 (TotalHits s) = Fin (real_of_int T)"
    by (simp only: f32_of_s32_def assms(3))
  show ?thesis
    unfolding computeDifficultyValue_def spec_difficulty_def Let_def t assms(1) std_pow_int_986
    using assms(2) by (simp add: fsub_def strain_base has_mod_code mult.commute)
qed

lemma accuracyValue_spec:
  assumes "Accuracy H s = Fin a" and "sint (TotalHits s) = T"
    and "b (m_mods s) HitWindow300 \<le> 0 \<or> 0 \<le> T"
  shows "m_accuracyValue (computeAccuracyValue H b s) =
     Fin (spec_acc_value H (m_mods s) (b (m_mods s) HitWindow300) (real_of_int T) a)"
proof (cases "b (m_mods s) HitWindow300 \<le> 0")
  case True
  then show ?thesis by (simp add: computeAccuracyValue_def spec_acc_value_def)
next
  case False
  with assms(3) have T: "0 \<le> T" by simp
  have t: "f32_of_s32 (TotalHits s) = Fin (real_of_int T)"
    by (simp only: f32_of_s32_def assms(2))
  show ?thesis
    unfolding computeAccuracyValue_def spec_acc_value_def Let_def t assms(1) std_pow_int_12
    using False T by (simp add: mods_subset_def)
qed

lemma spec_acc_value_nonneg: "0 \<le> spec_acc_value H md hw total_hits accuracy"
  by (simp add: spec_acc_value_def Let_def)

lemma spec_difficulty_nonneg:
  "0 \<le> total_hits \<Longrightarrow> 0 \<le> spec_difficulty H md strain total_hits nMiss accuracy"
  by (simp add: spec_difficulty_def Let_def)

lemma totalValue_spec:
  assumes "\<not> disqualified H (m_mods s)" and "m_difficultyValue s = Fin d"
    and "m_accuracyValue s = Fin acc_value" and "0 \<le> d" and "0 \<le> acc_value"
  shows "m_totalValue (computeTotalValue H s) = Fin (spec_total H (m_mods s) d acc_value)"
proof -
  have "\<not> d powr 1.1 + acc_value powr 1.1 < 0"
    by (simp add: add_nonneg_nonneg not_less)
  then show ?thesis
    using assms
    by (simp add: computeTotalValue_def disqualified_def has_mod_code spec_mult_def spec_total_def
        Let_def)
qed




lemma TotalValue_steps:
  fixes s0 :: TaikoScore
  assumes "\<not> disqualified H (m_mods s0)"
    and "Accuracy H s0 = Fin a" and "0 \<le> a" and "sint (TotalHits s0) = T"
    and "b (m_mods s0) HitWindow300 \<le> 0 \<or> 0 \<le> T"
    and "d = spec_difficulty H (m_mods s0) (b (m_mods s0) Strain) (real_of_int T)
               (real_of_int (sint (m_numMiss s0))) a"
    and "acc_value = spec_acc_value H (m_mods s0) (b (m_mods s0) HitWindow300) (real_of_int T) a"
    and "0 \<le> d"
  shows "m_totalValue (computeTotalValue H (computeAccuracyValue H b (computeDifficultyValue H b s0)))
           = Fin ((d powr 1.1 + acc_value powr 1.1) powr (1 / 1.1) * spec_mult H (m_mods s0))"
proof -
  let ?s1 = "computeDifficultyValue H b s0"
  let ?s2 = "computeAccuracyValue H b ?s1"
  have dv: "m_difficultyValue ?s1 = Fin d"
    using difficultyValue_spec [OF assms(2,3,4), of b] assms(6) by simp
  have "m_accuracyValue ?s2 = Fin (spec_acc_value H (m_mods ?s1) (b (m_mods ?s1) HitWindow300)
                                     (real_of_int T) a)"
    by (rule accuracyValue_spec) (simp_all add: assms)
  then have av: "m_accuracyValue ?s2 = Fin acc_value"
    using assms(7) by simp
  have nd: "\<not> disqualified H (m_mods ?s2)"
    using assms(1) by simp
  have dv2: "m_difficultyValue ?s2 = Fin d"
    using dv by simp
  have an: "0 \<le> acc_value"
    unfolding assms(7) by (rule spec_acc_value_nonneg)
  have "m_totalValue (computeTotalValue H ?s2) = Fin (spec_total H (m_mods ?s2) d acc_value)"
    using nd dv2 av assms(8) an by (rule totalValue_spec)
  then show ?thesis
    by (simp add: spec_total_def)
qed


lemma osu_plain:
  "\<not> disqualified osu_headers 0" "spec_mult osu_headers 0 = 1.12"
  "\<not> disqualified osu_headers 8" "spec_mult osu_headers 8 = 1.12 * 1.075"
  by (simp_all add: disqualified_def has_mod_def spec_mult_def osu_headers_def)

lemma maps [simp]:
  "clean_map m Strain = 3" "clean_map m HitWindow300 = 35"
  "no_window_map m Strain = 3" "no_window_map m HitWindow300 = 0"
  by (simp_all add: clean_map_def no_window_map_def)


subsection \<open>Scores outside the amended claim\<close>

lemma plain_score_steps:
  "plain_score num300 num100 num50 numMiss beatmap =
     computeTotalValue osu_headers (computeAccuracyValue osu_headers beatmap
       (computeDifficultyValue osu_headers beatmap (hits_score num300 num100 num50 numMiss)))"
  by (simp add: plain_score_def new_TaikoScore_def hits_score_def)

lemma hits_score_fields [simp]:
  "m_mods (hits_score num300 num100 num50 numMiss) = 0"
  "m_numMiss (hits_score num300 num100 num50 numMiss) = numMiss"
  by (simp_all add: hits_score_def)



text \<open>
  A divisor wrapped to 0: with 2 hits of 100 and 1073741822 of 50 the accuracy is 1
  (the quotient is +infinity) and the total value is the formula at that accuracy and
  at the \<open>TotalHits()\<close> of 1073741824.
\<close>

lemma infinite_quotient_total:
  "TotalValue (plain_score 0 2 1073741822 0 clean_map)
     = Fin ((spec_difficulty osu_headers 0 3 1073741824 0 1 powr 1.1
             + spec_acc_value osu_headers 0 35 1073741824 1 powr 1.1) powr (1 / 1.1) * 1.12)"
proof -
  let ?s0 = "hits_score 0 2 1073741822 0"
  have a: "Accuracy osu_headers ?s0 = Fin 1"
    by (simp add: Accuracy_def TotalHits_def hits_score_def f32_of_s32_def Clamp_def)
  have t: "sint (TotalHits ?s0) = 1073741824"
    by (simp add: TotalHits_def hits_score_def)
  have d: "0 \<le> spec_difficulty osu_headers 0 3 1073741824 0 1"
    by (rule spec_difficulty_nonneg) simp
  have "m_totalValue (plain_score 0 2 1073741822 0 clean_map)
          = Fin ((spec_difficulty osu_headers 0 3 1073741824 0 1 powr 1.1
                  + spec_acc_value osu_headers 0 35 1073741824 1 powr 1.1) powr (1 / 1.1)
                 * spec_mult osu_headers (m_mods ?s0))"
    unfolding plain_score_steps
    by (rule TotalValue_steps [OF _ a _ t]) (simp_all add: osu_plain d)
  then show ?thesis by (simp add: TotalValue_def osu_plain)
qed





section \<open>The per-user pipeline\<close>

subsection \<open>One iteration of the row loop\<close>

lemma process_row_skipped:
  assumes "skipped P (beatmaps st) row"
  shows "process_row P sel st row =
           Inr (if r_beatmap_id row \<in> blacklistedBeatmapIds P then st
                else st\<lparr>beatmaps := after_lazy_load P (beatmaps st) (r_beatmap_id row)\<rparr>)"
  using assms
  by (auto simp add: skipped_def process_row_def after_lazy_load_def outside_window_def Let_def
      split: option.splits)

lemma process_row_processed:
  assumes "\<not> skipped P (beatmaps st) row"
    and "NewScore P (after_lazy_load P (beatmaps st) (r_beatmap_id row)) row = Inr pScore"
  shows "process_row P sel st row =
           Inr \<lparr>beatmaps = after_lazy_load P (beatmaps st) (r_beatmap_id row),
                user_scores = user_scores st @ [PPRecord pScore],
                scoresThatNeedDBUpdate =
                  (if needs_update sel row (ScoreTotalValue pScore)
                   then scoresThatNeedDBUpdate st @ [pScore]
                   else scoresThatNeedDBUpdate st)\<rparr>"
  using assms
  by (auto simp add: skipped_def process_row_def after_lazy_load_def outside_window_def Let_def
      needs_update_def split: option.splits)

lemma process_rows_append:
  "process_rows P sel st (pre @ post) =
     (case process_rows P sel st pre of Inl e \<Rightarrow> Inl e | Inr st' \<Rightarrow> process_rows P sel st' post)"
  by (induction pre arbitrary: st) (simp_all split: sum.splits)

lemma process_row_extends:
  assumes "process_row P sel st row = Inr st'"
  shows "\<exists>more. scoresThatNeedDBUpdate st' = scoresThatNeedDBUpdate st @ more"
  using assms
  by (auto simp add: process_row_def Let_def split: if_splits option.splits sum.splits)

lemma process_rows_extends:
  "process_rows P sel st rows = Inr fin \<Longrightarrow>
   \<exists>more. scoresThatNeedDBUpdate fin = scoresThatNeedDBUpdate st @ more"
proof (induction rows arbitrary: st)
  case Nil
  then show ?case by simp
next
  case (Cons row rows)
  from Cons.prems obtain st' where s: "process_row P sel st row = Inr st'"
    and r: "process_rows P sel st' rows = Inr fin"
    by (auto split: sum.splits)
  from process_row_extends [OF s] obtain m1 where "scoresThatNeedDBUpdate st' = scoresThatNeedDBUpdate st @ m1"
    by blast
  moreover from Cons.IH [OF r] obtain m2 where "scoresThatNeedDBUpdate fin = scoresThatNeedDBUpdate st' @ m2"
    by blast
  ultimately have "scoresThatNeedDBUpdate fin = scoresThatNeedDBUpdate st @ (m1 @ m2)" by simp
  then show ?case by blast
qed

subsection \<open>The concrete processor\<close>

lemma demo_load_7:
  "after_lazy_load demo_processor Map.empty 7 7 =
     Some \<lparr>Id = 7, RankedStatus = 1, ScoreVersion = 1, NumHitCircles = 0,
           Attributes = [(0, ()) \<mapsto> 3]\<rparr>"
  by (simp add: after_lazy_load_def QueryBeatmapDifficulty_def demo_processor_def
      demo_difficulty_def set_difficulty_row_def new_CBeatmap_def word_sle_eq word_sless_alt)

lemma demo_load_5:
  "after_lazy_load demo_processor Map.empty 5 5 =
     Some \<lparr>Id = 5, RankedStatus = 4, ScoreVersion = 1, NumHitCircles = 0,
           Attributes = [(0, ()) \<mapsto> 3]\<rparr>"
  by (simp add: after_lazy_load_def QueryBeatmapDifficulty_def demo_processor_def
      demo_difficulty_def set_difficulty_row_def new_CBeatmap_def word_sle_eq word_sless_alt)

lemma demo_load_42: "after_lazy_load demo_processor Map.empty 42 42 = None"
  by (simp add: after_lazy_load_def QueryBeatmapDifficulty_def demo_processor_def
      demo_difficulty_def set_difficulty_row_def new_CBeatmap_def word_sle_eq word_sless_alt)

lemma demo_skipped:
  "skipped demo_processor Map.empty (demo_row 54 1 None)"
  "skipped demo_processor Map.empty (demo_row 56 42 None)"
  "skipped demo_processor Map.empty (demo_row 57 5 None)"
  "\<not> skipped demo_processor Map.empty (demo_row 55 7 None)"
  by (simp_all add: skipped_def demo_load_42 demo_load_5 demo_load_7 outside_window_def
      demo_row_def word_sle_eq word_sless_alt, simp_all add: demo_processor_def)

lemma demo_NewScore:
  "NewScore demo_processor (after_lazy_load demo_processor Map.empty 7) (demo_row 55 7 None)
     = Inr demo_score"
  using demo_load_7
  by (simp add: NewScore_def demo_row_def demo_score_def, simp add: demo_processor_def)

lemma demo_processor_fields [simp]:
  "gamemode demo_processor = Taiko"
  "blacklistedBeatmapIds demo_processor = {1}"
  "s_minRankedStatus demo_processor = 1"
  "s_maxRankedStatus demo_processor = 2"
  "difficultyAttributes demo_processor = (\<lambda>i. ())"
  "beatmap_difficulty_table demo_processor = [demo_difficulty 7 1, demo_difficulty 5 4]"
  "scores_high_table demo_processor = [demo_row 54 1 None, demo_row 55 7 None]"
  "user_stats_pp demo_processor = (\<lambda>u. [Some 3000])"
  "score_model demo_processor = (\<lambda>m b r. (700, 1))"
  "ComputePPRecord demo_processor = (\<lambda>rs. \<lparr>Value = 3800, Acc = 1\<rparr>)"
  by (simp_all add: demo_processor_def)

lemma demo_rows:
  "filter (\<lambda>r. r_user_id r = 9) (scores_high_table demo_processor)
     = [demo_row 54 1 None] @ demo_row 55 7 None # []"
  by (simp add: demo_row_def)

lemma demo_pre: "process_rows demo_processor sel demo_state [demo_row 54 1 None] = Inr demo_state"
  by (simp add: process_row_def demo_row_def)

lemma demo_step:
  "process_row demo_processor 55 demo_state (demo_row 55 7 None) = Inr demo_final"
  by (simp add: process_row_def demo_row_def demo_state_def demo_final_def demo_beatmap_7_def
      QueryBeatmapDifficulty_def demo_difficulty_def set_difficulty_row_def new_CBeatmap_def
      NewScore_def PPRecord_def demo_score_def word_sle_eq word_sless_alt)

lemma demo_loop:
  "process_rows demo_processor 55 demo_state
     (filter (\<lambda>r. r_user_id r = 9) (scores_high_table demo_processor)) = Inr demo_final"
  using demo_pre [of 55] demo_step by (simp only: demo_rows process_rows_append) simp

lemma demo_run: "ProcessSingleUser demo_processor Map.empty 55 [] [] [] 9 = Inr demo_outcome"
proof -
  have "process_rows demo_processor 55
          \<lparr>beatmaps = Map.empty, user_scores = [], scoresThatNeedDBUpdate = []\<rparr>
          (filter (\<lambda>r. r_user_id r = 9) (scores_high_table demo_processor)) = Inr demo_final"
    using demo_loop by (simp only: demo_state_def)
  then show ?thesis
    unfolding ProcessSingleUser_def
    by (simp add: Let_def demo_final_def demo_outcome_def demo_score_def
        s_notableEventRatingThreshold_def s_notableEventRatingDifferenceMinimum_def
        AppendToUpdateBatch_def)
qed

subsection \<open>Skipped rows\<close>

text \<open>
  C6: in ProcessSingleUser, a queried score row whose beatmap is blacklisted, or still
  absent from the cache after the lazy load attempt, or of a ranked status outside the
  window, is skipped: its iteration returns, leaves the user's score records and the list
  of scores to update as they were, and the loop goes on from there. The rows before it
  are \<open>pre\<close>, those after it \<open>post\<close>.
\<close>

theorem skipped_row_contributes_nothing:
  assumes "process_rows P sel st0 pre = Inr st"
    and "skipped P (beatmaps st) row"
  shows "\<exists>st'. process_row P sel st row = Inr st'
           \<and> user_scores st' = user_scores st
           \<and> scoresThatNeedDBUpdate st' = scoresThatNeedDBUpdate st
           \<and> process_rows P sel st0 (pre @ row # post) = process_rows P sel st' post"
  using process_row_skipped [OF assms(2), of sel] assms(1)
  by (simp add: process_rows_append)

theorem skipped_row_contributes_nothing_witness:
  "process_rows demo_processor 0 demo_state [] = Inr demo_state
   \<and> skipped demo_processor (beatmaps demo_state) (demo_row 54 1 None)
   \<and> skipped demo_processor (beatmaps demo_state) (demo_row 56 42 None)
   \<and> skipped demo_processor (beatmaps demo_state) (demo_row 57 5 None)
   \<and> (\<exists>st'. process_row demo_processor 0 demo_state (demo_row 54 1 None) = Inr st'
          \<and> user_scores st' = [] \<and> scoresThatNeedDBUpdate st' = [])
   \<and> (\<exists>st'. process_row demo_processor 0 demo_state (demo_row 56 42 None) = Inr st'
          \<and> user_scores st' = [] \<and> scoresThatNeedDBUpdate st' = [])
   \<and> (\<exists>st'. process_row demo_processor 0 demo_state (demo_row 57 5 None) = Inr st'
          \<and> user_scores st' = [] \<and> scoresThatNeedDBUpdate st' = [])"
proof -
  have p: "process_rows demo_processor 0 demo_state [] = Inr demo_state" by simp
  have b: "beatmaps demo_state = Map.empty" "user_scores demo_state = []"
    "scoresThatNeedDBUpdate demo_state = []"
    by (simp_all add: demo_state_def)
  have s: "skipped demo_processor (beatmaps demo_state) (demo_row 54 1 None)"
    "skipped demo_processor (beatmaps demo_state) (demo_row 56 42 None)"
    "skipped demo_processor (beatmaps demo_state) (demo_row 57 5 None)"
    using demo_skipped by (simp_all add: b)
  show ?thesis
    using p s
      skipped_row_contributes_nothing [OF p s(1), of "[]"]
      skipped_row_contributes_nothing [OF p s(2), of "[]"]
      skipped_row_contributes_nothing [OF p s(3), of "[]"]
    by (simp add: b) blast
qed

subsection \<open>Staging the score update\<close>

text \<open>
  C4: in ProcessSingleUser, for every processed score (a row that is not skipped, for
  which the score was constructed), the batch receives the \<open>UPDATE\<close> of the score's
  pp row if and only if (the stored pp is null, or \<open>selectedScoreId\<close> is 0 or the
  score's id) and (the stored pp is null, or it differs from the new pp by more than
  0.001). The statements of the batch are those of the rows before, then this one or
  none, then those of the rows after.
\<close>

theorem score_update_staged_iff:
  assumes run: "ProcessSingleUser P bms sel db newUsers newScores userId = Inr out"
    and rows: "filter (\<lambda>r. r_user_id r = userId) (scores_high_table P) = pre @ row # post"
    and pre: "process_rows P sel \<lparr>beatmaps = bms, user_scores = [], scoresThatNeedDBUpdate = []\<rparr> pre
                = Inr st"
    and kept: "\<not> skipped P (beatmaps st) row"
    and new: "NewScore P (after_lazy_load P (beatmaps st) (r_beatmap_id row)) row = Inr pScore"
  shows "\<exists>st' fin later.
           process_row P sel st row = Inr st'
           \<and> process_rows P sel st' post = Inr fin
           \<and> scoresThatNeedDBUpdate fin = scoresThatNeedDBUpdate st' @ later
           \<and> o_newScores out =
               newScores @ map AppendToUpdateBatch (scoresThatNeedDBUpdate st)
                 @ (if needs_update sel row (ScoreTotalValue pScore)
                    then [UpdateScorePP (r_score_id row) (ScoreTotalValue pScore)] else [])
                 @ map AppendToUpdateBatch later"
proof -
  define st' where "st' = \<lparr>beatmaps = after_lazy_load P (beatmaps st) (r_beatmap_id row),
                user_scores = user_scores st @ [PPRecord pScore],
                scoresThatNeedDBUpdate =
                  (if needs_update sel row (ScoreTotalValue pScore)
                   then scoresThatNeedDBUpdate st @ [pScore]
                   else scoresThatNeedDBUpdate st)\<rparr>"
  have step: "process_row P sel st row = Inr st'"
    unfolding st'_def by (rule process_row_processed [OF kept new])
  have id: "ScoreId pScore = r_score_id row"
    using new by (auto simp add: NewScore_def split: EGamemode.splits option.splits)
  let ?init = "\<lparr>beatmaps = bms, user_scores = [], scoresThatNeedDBUpdate = []\<rparr>"
  have whole: "process_rows P sel ?init (pre @ row # post) = process_rows P sel st' post"
    by (simp add: process_rows_append pre step)
  from run rows whole obtain fin where fin: "process_rows P sel st' post = Inr fin"
    and ns: "o_newScores out = newScores @ map AppendToUpdateBatch (scoresThatNeedDBUpdate fin)"
    by (auto simp add: ProcessSingleUser_def Let_def split: sum.splits)
  from process_rows_extends [OF fin] obtain later
    where later: "scoresThatNeedDBUpdate fin = scoresThatNeedDBUpdate st' @ later"
    by blast
  have "map AppendToUpdateBatch (scoresThatNeedDBUpdate st') =
          map AppendToUpdateBatch (scoresThatNeedDBUpdate st)
            @ (if needs_update sel row (ScoreTotalValue pScore)
               then [UpdateScorePP (r_score_id row) (ScoreTotalValue pScore)] else [])"
    by (simp add: st'_def AppendToUpdateBatch_def id)
  then have "o_newScores out =
               newScores @ map AppendToUpdateBatch (scoresThatNeedDBUpdate st)
                 @ (if needs_update sel row (ScoreTotalValue pScore)
                    then [UpdateScorePP (r_score_id row) (ScoreTotalValue pScore)] else [])
                 @ map AppendToUpdateBatch later"
    by (simp add: ns later)
  then show ?thesis using step fin later by blast
qed

theorem score_update_staged_iff_witness:
  "ProcessSingleUser demo_processor Map.empty 55 [] [] [] 9 = Inr demo_outcome
   \<and> filter (\<lambda>r. r_user_id r = 9) (scores_high_table demo_processor)
       = [demo_row 54 1 None] @ demo_row 55 7 None # []
   \<and> process_rows demo_processor 55 demo_state [demo_row 54 1 None] = Inr demo_state
   \<and> \<not> skipped demo_processor (beatmaps demo_state) (demo_row 55 7 None)
   \<and> NewScore demo_processor
        (after_lazy_load demo_processor (beatmaps demo_state) (r_beatmap_id (demo_row 55 7 None)))
        (demo_row 55 7 None) = Inr demo_score
   \<and> needs_update 55 (demo_row 55 7 None) (ScoreTotalValue demo_score)
   \<and> o_newScores demo_outcome = [UpdateScorePP 55 700]"
proof -
  have b: "beatmaps demo_state = Map.empty" "scoresThatNeedDBUpdate demo_state = []"
    by (simp_all add: demo_state_def)
  have bid: "r_beatmap_id (demo_row 55 7 None) = 7" "r_score_id (demo_row 55 7 None) = 55"
    by (simp_all add: demo_row_def)
  have pre: "process_rows demo_processor 55
       \<lparr>beatmaps = Map.empty, user_scores = [], scoresThatNeedDBUpdate = []\<rparr>
       [demo_row 54 1 None] = Inr demo_state"
    using demo_pre [of 55] by (simp add: demo_state_def)
  have kept: "\<not> skipped demo_processor (beatmaps demo_state) (demo_row 55 7 None)"
    using demo_skipped(4) by (simp add: b)
  have new: "NewScore demo_processor
        (after_lazy_load demo_processor (beatmaps demo_state) (r_beatmap_id (demo_row 55 7 None)))
        (demo_row 55 7 None) = Inr demo_score"
    using demo_NewScore by (simp add: b bid)
  have nu: "needs_update 55 (demo_row 55 7 None) (ScoreTotalValue demo_score)"
    by (simp add: needs_update_def demo_row_def)
  have "o_newScores demo_outcome = [UpdateScorePP 55 700]"
    by (simp add: demo_outcome_def)
  then show ?thesis
    using score_update_staged_iff [OF demo_run demo_rows pre kept new]
      demo_run demo_rows demo_pre [of 55] kept new nu
    by simp
qed

subsection \<open>Notable events\<close>

lemma notable_rows_set:
  "set (notable_rows m u sc v res) =
     {InsertPerformanceChange u m (BeatmapId sc) (v - prev) | prev.
        Some prev \<in> set res \<and> 5 \<le> v - prev}"
proof (induction res)
  case Nil
  then show ?case by simp
next
  case (Cons a res)
  then show ?case
    by (cases a) (auto simp add: Let_def s_notableEventRatingDifferenceMinimum_def)
qed

text \<open>
  C5: ProcessSingleUser inserts into the performance-change log if and only if
  \<open>selectedScoreId > 0\<close>, some score needed a database update, the first such score's
  pp exceeds the new user pp times 1/21.5, and the user's previously stored pp is not
  null and at least 5 below the new user pp; every inserted row carries that difference
  as its performance change.
\<close>

theorem notable_event_iff:
  assumes "process_rows P sel \<lparr>beatmaps = bms, user_scores = [], scoresThatNeedDBUpdate = []\<rparr>
             (filter (\<lambda>r. r_user_id r = u) (scores_high_table P)) = Inr st"
  shows "\<exists>out ins. ProcessSingleUser P bms sel db newUsers newScores u = Inr out
           \<and> o_user_record out = ComputePPRecord P (user_scores st)
           \<and> o_db out = db @ ins
           \<and> (ins \<noteq> [] \<longleftrightarrow>
                0 < sel \<and> scoresThatNeedDBUpdate st \<noteq> []
                \<and> Value (o_user_record out) * (1 / 21.5) < ScoreTotalValue (hd (scoresThatNeedDBUpdate st))
                \<and> (\<exists>prev. Some prev \<in> set (user_stats_pp P u) \<and> 5 \<le> Value (o_user_record out) - prev))
           \<and> (\<forall>s \<in> set ins. \<exists>prev. Some prev \<in> set (user_stats_pp P u)
                 \<and> s = InsertPerformanceChange u (gamemode P)
                         (BeatmapId (hd (scoresThatNeedDBUpdate st))) (Value (o_user_record out) - prev))"
proof -
  define V where "V = Value (ComputePPRecord P (user_scores st))"
  define needs where "needs = scoresThatNeedDBUpdate st"
  define fire where "fire \<longleftrightarrow> 0 < sel \<and> needs \<noteq> [] \<and> V * (1 / 21.5) < ScoreTotalValue (hd needs)"
  define ins where "ins = (if fire then notable_rows (gamemode P) u (hd needs) V (user_stats_pp P u) else [])"
  obtain out where out: "ProcessSingleUser P bms sel db newUsers newScores u = Inr out"
    and rec: "o_user_record out = ComputePPRecord P (user_scores st)"
    and db: "o_db out = db @ ins"
    using assms
    by (simp add: ProcessSingleUser_def Let_def ins_def fire_def V_def needs_def
        s_notableEventRatingThreshold_def)
  have S: "set ins = (if fire then {InsertPerformanceChange u (gamemode P) (BeatmapId (hd needs)) (V - prev) | prev.
        Some prev \<in> set (user_stats_pp P u) \<and> 5 \<le> V - prev} else {})"
    by (simp add: ins_def notable_rows_set)
  have ne: "ins \<noteq> [] \<longleftrightarrow> fire \<and> (\<exists>prev. Some prev \<in> set (user_stats_pp P u) \<and> 5 \<le> V - prev)"
  proof -
    have "ins \<noteq> [] \<longleftrightarrow> set ins \<noteq> {}" by simp
    also have "\<dots> \<longleftrightarrow> fire \<and> (\<exists>prev. Some prev \<in> set (user_stats_pp P u) \<and> 5 \<le> V - prev)"
      unfolding S by auto
    finally show ?thesis .
  qed
  have all: "\<forall>s \<in> set ins. \<exists>prev. Some prev \<in> set (user_stats_pp P u)
                 \<and> s = InsertPerformanceChange u (gamemode P) (BeatmapId (hd needs)) (V - prev)"
    unfolding S by auto
  show ?thesis
    using out rec db ne all unfolding fire_def V_def needs_def
    by (intro exI [of _ out] exI [of _ ins]) simp
qed
theorem notable_event_iff_witness:
  "process_rows demo_processor 55
     \<lparr>beatmaps = Map.empty, user_scores = [], scoresThatNeedDBUpdate = []\<rparr>
     (filter (\<lambda>r. r_user_id r = 9) (scores_high_table demo_processor)) = Inr demo_final
   \<and> ProcessSingleUser demo_processor Map.empty 55 [] [] [] 9 = Inr demo_outcome
   \<and> o_db demo_outcome = [InsertPerformanceChange 9 Taiko 7 (3800 - 3000)]"
proof -
  have l: "process_rows demo_processor 55
     \<lparr>beatmaps = Map.empty, user_scores = [], scoresThatNeedDBUpdate = []\<rparr>
     (filter (\<lambda>r. r_user_id r = 9) (scores_high_table demo_processor)) = Inr demo_final"
    using demo_loop by (simp add: demo_state_def)
  have "o_db demo_outcome = [InsertPerformanceChange 9 Taiko 7 (3800 - 3000)]"
    by (simp add: demo_outcome_def)
  then show ?thesis
    using notable_event_iff [OF l, of "[]" "[]" "[]"] l demo_run by simp
qed
section \<open>The score poller: checkpoint\<close>

lemma process_rows_blacklisted:
  "\<forall>r \<in> set rows. r_beatmap_id r \<in> blacklistedBeatmapIds P \<Longrightarrow>
   process_rows P sel st rows = Inr st"
  by (induction rows) (simp_all add: process_row_def)

lemma ProcessSingleUser_blacklisted:
  assumes "\<forall>r \<in> set (scores_high_table P). r_beatmap_id r \<in> blacklistedBeatmapIds P"
  shows "\<exists>out. ProcessSingleUser P bms sel db nu ns u = Inr out \<and> o_db out = db"
proof -
  have "process_rows P sel \<lparr>beatmaps = bms, user_scores = [], scoresThatNeedDBUpdate = []\<rparr>
          (filter (\<lambda>r. r_user_id r = u) (scores_high_table P))
        = Inr \<lparr>beatmaps = bms, user_scores = [], scoresThatNeedDBUpdate = []\<rparr>"
    using assms by (intro process_rows_blacklisted) simp
  then show ?thesis by (simp add: ProcessSingleUser_def Let_def)
qed

lemma poll_rows_below_step:
  assumes "\<forall>r \<in> set (scores_high_table P). r_beatmap_id r \<in> blacklistedBeatmapIds P"
    and "\<forall>r \<in> set rows. r_pp r = None"
    and "numScoresProcessedSinceLastStore st + int (length rows) \<le> 100"
  shows "\<exists>st'. poll_rows P st rows = Inr st'
           \<and> numScoresProcessedSinceLastStore st' = numScoresProcessedSinceLastStore st + int (length rows)
           \<and> stores (pDB st') = stores (pDB st)
           \<and> currentScoreId st' = foldl max (currentScoreId st) (map r_score_id rows)"
  using assms(2,3)
proof (induction rows arbitrary: st)
  case Nil
  then show ?case by simp
next
  case (Cons row rows)
  obtain out where out: "ProcessSingleUser P (p_beatmaps st) (r_score_id row) (pDB st) (p_newUsers st)
        (p_newScores st) (r_user_id row) = Inr out" "o_db out = pDB st"
    using ProcessSingleUser_blacklisted [OF assms(1)] by blast
  define st1 where "st1 = st\<lparr>currentScoreId := max (currentScoreId st) (r_score_id row),
      p_beatmaps := o_beatmaps out, pDB := o_db out, p_newUsers := o_newUsers out,
      p_newScores := o_newScores out,
      numScoresProcessedSinceLastStore := numScoresProcessedSinceLastStore st + 1\<rparr>"
  have step: "poll_row P st row = Inr st1"
    using Cons.prems out by (simp add: poll_row_def Let_def s_lastScoreIdUpdateStep_def st1_def)
  have n1: "numScoresProcessedSinceLastStore st1 = numScoresProcessedSinceLastStore st + 1"
    and db1: "pDB st1 = pDB st"
    and c1: "currentScoreId st1 = max (currentScoreId st) (r_score_id row)"
    by (simp_all add: st1_def out)
  have "\<exists>st'. poll_rows P st1 rows = Inr st'
           \<and> numScoresProcessedSinceLastStore st' = numScoresProcessedSinceLastStore st1 + int (length rows)
           \<and> stores (pDB st') = stores (pDB st1)
           \<and> currentScoreId st' = foldl max (currentScoreId st1) (map r_score_id rows)"
    using Cons.prems by (intro Cons.IH) (simp_all add: n1)
  then obtain st' where "poll_rows P st1 rows = Inr st'"
    "numScoresProcessedSinceLastStore st' = numScoresProcessedSinceLastStore st1 + int (length rows)"
    "stores (pDB st') = stores (pDB st1)"
    "currentScoreId st' = foldl max (currentScoreId st1) (map r_score_id rows)"
    by blast
  then have "poll_rows P st (row # rows) = Inr st'
           \<and> numScoresProcessedSinceLastStore st' = numScoresProcessedSinceLastStore st + int (length (row # rows))
           \<and> stores (pDB st') = stores (pDB st)
           \<and> currentScoreId st' = foldl max (currentScoreId st) (map r_score_id (row # rows))"
    by (simp add: step n1 db1 c1)
  then show ?case by blast
qed

lemma sorted_new_ids: "sorted (map (\<lambda>i. int i + 1) [0..<k])"
  by (induction k) (auto simp add: sorted_append)

lemma poll_query:
  "sort_key r_score_id (filter (\<lambda>r. 0 < r_score_id r) (scores_high_table (poll_processor k)))
     = scores_high_table (poll_processor k)"
proof -
  have f: "filter (\<lambda>r. 0 < r_score_id r) (scores_high_table (poll_processor k))
             = scores_high_table (poll_processor k)"
    by (simp add: poll_processor_def new_score_row_def)
  have "map r_score_id (scores_high_table (poll_processor k)) = map (\<lambda>i. int i + 1) [0..<k]"
    by (simp add: poll_processor_def new_score_row_def comp_def)
  then have "sorted (map r_score_id (scores_high_table (poll_processor k)))"
    by (simp add: sorted_new_ids)
  then show ?thesis by (simp add: f sort_key_id_if_sorted)
qed

text \<open>
  C8: the poller is to write the checkpoint whenever the count of scores processed since
  the last store reaches 100. The code tests \<open>count > 100\<close>: after 100 processed
  scores, starting from a count of 0, the count is 100 and no checkpoint has been written.
\<close>

theorem no_checkpoint_after_100_scores:
  "summary (PollAndProcessNewScores (poll_processor 100) fresh_poller) = Some (100, [])"
proof -
  let ?P = "poll_processor 100"
  have a: "\<forall>r \<in> set (scores_high_table ?P). r_beatmap_id r \<in> blacklistedBeatmapIds ?P"
    by (auto simp add: poll_processor_def new_score_row_def)
  have b: "\<forall>r \<in> set (scores_high_table ?P). r_pp r = None"
    by (auto simp add: poll_processor_def new_score_row_def)
  have c: "numScoresProcessedSinceLastStore (fresh_poller\<lparr>p_newUsers := [], p_newScores := []\<rparr>)
             + int (length (scores_high_table ?P)) \<le> 100"
    by (simp add: fresh_poller_def poll_processor_def)
  obtain st' where "poll_rows ?P (fresh_poller\<lparr>p_newUsers := [], p_newScores := []\<rparr>) (scores_high_table ?P) = Inr st'"
    "numScoresProcessedSinceLastStore st' = 100" "stores (pDB st') = []"
    using poll_rows_below_step [OF a b c]
    by (auto simp add: fresh_poller_def poll_processor_def stores_def)
  then show ?thesis
    using poll_query [of 100]
    by (simp add: PollAndProcessNewScores_def summary_def fresh_poller_def)
qed
lemma poll_rows_append:
  "poll_rows P st (xs @ ys) =
     (case poll_rows P st xs of Inl e \<Rightarrow> Inl e | Inr st' \<Rightarrow> poll_rows P st' ys)"
  by (induction xs arbitrary: st) (simp_all split: sum.splits)

lemma poll_row_above_step:
  assumes "\<forall>r \<in> set (scores_high_table P). r_beatmap_id r \<in> blacklistedBeatmapIds P"
    and "r_pp row = None"
    and "numScoresProcessedSinceLastStore st = 100"
  shows "\<exists>st'. poll_row P st row = Inr st'
           \<and> numScoresProcessedSinceLastStore st' = 0
           \<and> stores (pDB st') = stores (pDB st) @ [InsertCount (LastScoreIdKey P)
                 (max (currentScoreId st) (r_score_id row))]"
proof -
  obtain out where out: "ProcessSingleUser P (p_beatmaps st) (r_score_id row) (pDB st) (p_newUsers st)
        (p_newScores st) (r_user_id row) = Inr out" "o_db out = pDB st"
    using ProcessSingleUser_blacklisted [OF assms(1)] by blast
  show ?thesis
    using assms(2,3) out
    by (simp add: poll_row_def Let_def s_lastScoreIdUpdateStep_def StoreCount_def stores_def)
qed


lemma max_new_ids: "foldl max (0 :: int) (map (\<lambda>i. int i + 1) [0..<100]) = 100"
  by code_simp

text \<open>The checkpoint is written at the 101st score.\<close>

theorem checkpoint_at_101st_score:
  "summary (PollAndProcessNewScores (poll_processor 101) fresh_poller)
     = Some (0, [InsertCount ''last_score_id'' 101])"
proof -
  let ?P = "poll_processor 101"
  let ?st = "fresh_poller\<lparr>p_newUsers := [], p_newScores := []\<rparr>"
  let ?rows = "map (\<lambda>i. new_score_row (int i + 1)) [0..<100]"
  have "[0..<101] = [0..<100] @ [100 :: nat]" by code_simp
  then have tbl: "scores_high_table ?P = ?rows @ [new_score_row 101]"
    by (simp add: poll_processor_def)
  have a: "\<forall>r \<in> set (scores_high_table ?P). r_beatmap_id r \<in> blacklistedBeatmapIds ?P"
    by (auto simp add: poll_processor_def new_score_row_def)
  have b: "\<forall>r \<in> set ?rows. r_pp r = None"
    by (auto simp add: new_score_row_def)
  have c: "numScoresProcessedSinceLastStore ?st + int (length ?rows) \<le> 100"
    by (simp add: fresh_poller_def)
  have ids: "map r_score_id ?rows = map (\<lambda>i. int i + 1) [0..<100]"
    by (simp add: new_score_row_def comp_def)
  obtain st1 where r: "poll_rows ?P ?st ?rows = Inr st1"
    "numScoresProcessedSinceLastStore st1 = numScoresProcessedSinceLastStore ?st + int (length ?rows)"
    "stores (pDB st1) = stores (pDB ?st)"
    "currentScoreId st1 = foldl max (currentScoreId ?st) (map r_score_id ?rows)"
    using poll_rows_below_step [OF a b c] by blast
  have n1: "numScoresProcessedSinceLastStore st1 = 100"
    using r(2) by (simp add: fresh_poller_def)
  have s1: "stores (pDB st1) = []"
    using r(3) by (simp add: fresh_poller_def stores_def)
  have "currentScoreId ?st = 0"
    by (simp add: fresh_poller_def)
  then have c1: "currentScoreId st1 = 100"
    using r(4) by (simp only: ids max_new_ids)
  have d: "r_pp (new_score_row 101) = None" "r_score_id (new_score_row 101) = 101"
    by (simp_all add: new_score_row_def)
  obtain st2 where st2: "poll_row ?P st1 (new_score_row 101) = Inr st2"
    "numScoresProcessedSinceLastStore st2 = 0"
    "stores (pDB st2) = [InsertCount ''last_score_id'' 101]"
    using poll_row_above_step [OF a d(1) n1] s1 c1 d(2)
    by (auto simp add: poll_processor_def)
  have "poll_rows ?P ?st (scores_high_table ?P) = Inr st2"
    by (simp add: tbl poll_rows_append r(1) st2(1))
  then show ?thesis
    using poll_query [of 101] st2(2,3)
    by (simp add: PollAndProcessNewScores_def summary_def fresh_poller_def)
qed


section \<open>Full re-processing: steps and checkpoint\<close>

lemma s64_wrap_id: "in_s64 i \<Longrightarrow> s64_wrap i = i"
  by (simp add: in_s64_def s64_wrap_def signed_take_bit_int_eq_self)




lemma dispatch_events:
  "dispatch E nt res c n w = (x, c', n', w', evs) \<Longrightarrow> list_all is_enqueue evs"
proof (induction res arbitrary: c n w x c' n' w' evs)
  case Nil
  then show ?case by simp
next
  case (Cons u res)
  let ?w1 = "advance (after_enqueue E (Suc n)) (w\<lparr>tasksInSystem := tasksInSystem w + 1\<rparr>)"
  show ?case
  proof (cases "nt = 0 \<or> shallShutdown E (Suc n)")
    case True
    with Cons.prems show ?thesis by (auto simp add: Let_def split: if_splits)
  next
    case False
    obtain x1 c1 n1 w1 evs1
      where d: "dispatch E nt res ((c + 1) mod nt) (Suc n) ?w1 = (x1, c1, n1, w1, evs1)"
      by (metis prod_cases5)
    from Cons.IH [OF d] have "list_all is_enqueue evs1" .
    moreover from Cons.prems False d have "evs = EnqueueTask u c # evs1" by (simp add: Let_def)
    ultimately show ?thesis by simp
  qed
qed

lemma await_idle_events:
  "await_idle sleeps w = Some (polls, w') \<Longrightarrow>
   (\<exists>busy. polls = busy @ [Poll 0 0] \<and> list_all is_busy_poll busy) \<and> tasksInSystem w' = 0"
proof (induction sleeps arbitrary: w polls)
  case Nil
  then have "polls = [] @ [Poll 0 0] \<and> list_all is_busy_poll [] \<and> tasksInSystem w' = 0"
    by (auto split: if_splits)
  then show ?case by blast
next
  case (Cons g sleeps)
  let ?p = "pendingQueries w"
  let ?w1 = "advance g w"
  show ?case
  proof (cases "0 < tasksInSystem ?w1 \<or> 0 < ?p")
    case True
    with Cons.prems obtain rest
      where r: "await_idle sleeps ?w1 = Some (rest, w')" "polls = Poll ?p (tasksInSystem ?w1) # rest"
      by (auto simp add: Let_def)
    from Cons.IH [OF r(1)] obtain busy
      where b: "rest = busy @ [Poll 0 0]" "list_all is_busy_poll busy" and t: "tasksInSystem w' = 0"
      by blast
    from r b True
    have "polls = (Poll ?p (tasksInSystem ?w1) # busy) @ [Poll 0 0]
            \<and> list_all is_busy_poll (Poll ?p (tasksInSystem ?w1) # busy)"
      by simp
    with t show ?thesis by blast
  next
    case False
    with Cons.prems
    have "polls = [] @ [Poll 0 0] \<and> list_all is_busy_poll [] \<and> tasksInSystem w' = 0"
      by (auto simp add: Let_def)
    then show ?thesis by blast
  qed
qed

lemma dispatch_users:
  "dispatch E numThreads res c n w = (None, c', n', w', evs) \<Longrightarrow> map task_user evs = map Some res"
proof (induction res arbitrary: c n w c' n' w' evs)
  case Nil
  then show ?case by simp
next
  case (Cons u res)
  let ?w1 = "advance (after_enqueue E (Suc n)) (w\<lparr>tasksInSystem := tasksInSystem w + 1\<rparr>)"
  from Cons.prems have ok: "numThreads \<noteq> 0" "\<not> shallShutdown E (Suc n)"
    by (auto simp add: Let_def split: if_splits)
  obtain x1 c1 n1 w1 evs1
    where d: "dispatch E numThreads res ((c + 1) mod numThreads) (Suc n) ?w1 = (x1, c1, n1, w1, evs1)"
    by (metis prod_cases5)
  with Cons.prems ok have "x1 = None" "evs = EnqueueTask u c # evs1" by (simp_all add: Let_def)
  with Cons.IH [of "(c + 1) mod numThreads" "Suc n" ?w1 c1 n1 w1 evs1] d show ?case by simp
qed

text \<open>
  A step that completes: its tasks, for the user ids from \<open>begin\<close> to
  \<open>begin + 10000\<close>, both ends included; the rounds of the wait loop, the last of
  which read no pending query and no task; the store. No task is then left in the
  pool.
\<close>

lemma completed_step:
  assumes "process_step E numThreads begin c n w = (None, c', n', w', evs)"
  shows "\<exists>tasks busy.
           evs = tasks @ busy @ [Poll 0 0, Store (LastUserIdKey E) (s64_wrap (begin + 10000))]
           \<and> list_all is_enqueue tasks \<and> list_all is_busy_poll busy
           \<and> map task_user tasks
               = map Some (filter (\<lambda>u. begin \<le> u \<and> u \<le> s64_wrap (begin + 10000))
                             (user_stats_ids E))
           \<and> tasksInSystem w' = 0"
proof -
  let ?res = "filter (\<lambda>u. begin \<le> u \<and> u \<le> s64_wrap (begin + userIdStep)) (user_stats_ids E)"
  obtain x c1 n1 w1 tasks where d: "dispatch E numThreads ?res c n w = (x, c1, n1, w1, tasks)"
    by (metis prod_cases5)
  from assms d have x: "x = None"
    by (auto simp add: process_step_def Let_def split: option.splits)
  from assms d x obtain polls where i: "await_idle (during_sleep E begin) w1 = Some (polls, w')"
    and evs: "evs = tasks @ polls @ [Store (LastUserIdKey E) (s64_wrap (begin + userIdStep))]"
    by (auto simp add: process_step_def Let_def split: option.splits)
  from await_idle_events [OF i] obtain busy
    where b: "polls = busy @ [Poll 0 0]" "list_all is_busy_poll busy" and t: "tasksInSystem w' = 0"
    by blast
  have u: "map task_user tasks = map Some ?res"
    using dispatch_users d x by blast
  show ?thesis
    using evs b t u dispatch_events [OF d]
    by (intro exI [of _ tasks] exI [of _ busy]) (simp add: userIdStep_def)
qed

lemma step_dispatches_closed_range:
  assumes "process_step E numThreads begin c n w = (None, c', n', w', evs)"
  shows "\<exists>tasks rest. evs = tasks @ rest \<and> list_all is_enqueue tasks
           \<and> map task_user tasks
               = map Some (filter (\<lambda>u. begin \<le> u \<and> u \<le> s64_wrap (begin + 10000))
                             (user_stats_ids E))
           \<and> list_all (\<lambda>e. task_user e = None) rest"
proof -
  from completed_step [OF assms] obtain tasks busy where
    evs: "evs = tasks @ busy @ [Poll 0 0, Store (LastUserIdKey E) (s64_wrap (begin + 10000))]"
    and t: "list_all is_enqueue tasks" and b: "list_all is_busy_poll busy"
    and u: "map task_user tasks
               = map Some (filter (\<lambda>u. begin \<le> u \<and> u \<le> s64_wrap (begin + 10000))
                             (user_stats_ids E))"
    by blast
  have "list_all (\<lambda>e. task_user e = None) busy"
    using b by (induction busy) (auto elim: is_busy_poll.elims)
  then have "list_all (\<lambda>e. task_user e = None)
               (busy @ [Poll 0 0, Store (LastUserIdKey E) (s64_wrap (begin + 10000))])"
    by simp
  then show ?thesis
    using evs t u
    by (intro exI [of _ tasks]
        exI [of _ "busy @ [Poll 0 0, Store (LastUserIdKey E) (s64_wrap (begin + 10000))]"]) simp
qed









text \<open>
  C10: when ProcessAllUsers is called with \<open>reProcess\<close> false and the counter store
  has no \<open>last_user_id\<close> (RetrieveCount returns -1), it returns at once: no task is
  given to the pool and no checkpoint is stored.
\<close>

theorem nothing_to_reprocess:
  assumes "RetrieveCount counts (LastUserIdKey E) = - 1"
  shows "ProcessAllUsers E counts False numThreads = Some (NothingToReprocess, [])"
  using assms by (simp add: ProcessAllUsers_def)

theorem nothing_to_reprocess_witness:
  "RetrieveCount [] (LastUserIdKey boundary_env) = - 1
   \<and> ProcessAllUsers boundary_env [] False 4 = Some (NothingToReprocess, [])"
proof -
  have h: "RetrieveCount [] (LastUserIdKey boundary_env) = - 1" by simp
  show ?thesis using h nothing_to_reprocess [OF h, of 4] by simp
qed

text \<open>
  C7: a step is to dispatch the user ids of the half-open range from \<open>begin\<close> to
  \<open>begin + 10000\<close>. The query is \<open>BETWEEN begin AND begin + 10000\<close>, which includes
  both ends: with the single user 10000 and a re-processing from 0, the user is given to
  the pool in the step from 0 and again in the step from 10000.
\<close>

theorem boundary_user_dispatched_twice:
  "ProcessAllUsers boundary_env [] True 1 =
     Some (Finished,
       [Store ''last_user_id'' 0,
        EnqueueTask 10000 0, Poll 2 1, Poll 0 0, Store ''last_user_id'' 10000,
        EnqueueTask 10000 0, Poll 2 1, Poll 0 0, Store ''last_user_id'' 20000])"
proof -
  have "s64_wrap 10000 = 10000" "s64_wrap 20000 = 20000"
    by (simp_all add: s64_wrap_id in_s64_def)
  then show ?thesis
    by (simp add: ProcessAllUsers_def boundary_env_def process_steps.simps process_step_def
        userIdStep_def advance_def idle_def)
qed

end
